theory Spec2Isabelle
  imports Complex_Main "HOL-Library.AList"
begin

section \<open>Python values, exceptions and the log\<close>

text \<open>
  Dictionary keys and table labels are strings, integers or timestamps. Values are the
  JSON-like Python values the provider returns; \<open>PDumps v\<close> is the \<open>str\<close> that
  \<open>json.dumps\<close> makes of \<open>v\<close>. A \<open>dict\<close> is an association list in insertion order.
  \<open>json.dumps\<close> raises \<open>TypeError\<close> on a value that is not JSON-serializable (of the
  values of this type, a dict with a timestamp key); \<open>PDumps\<close> stands for its result on
  the values it serializes, which are the ones the tools give it: the provider's
  parsed JSON, and dicts whose keys \<open>df_to_dict_str_keys\<close> has made strings.
\<close>

datatype key = KStr string | KInt int | KTime int

datatype py =
    PNone
  | PBool bool
  | PInt int
  | PNum real
  | PNaN
  | PStr string
  | PDumps py
  | PList "py list"
  | PDict "(key \<times> py) list"

text \<open>
  An exception and its \<open>str\<close>; a \<open>KeyError\<close> holds the missing key, a string, and
  renders it in quotes.
\<close>

datatype error =
    AttributeError string
  | KeyError string
  | ValueError string
  | ProviderError string

fun str_error :: "error \<Rightarrow> string" where
  "str_error (AttributeError m) = m"
| "str_error (KeyError m) = [CHR 0x27] @ m @ [CHR 0x27]"
| "str_error (ValueError m) = m"
| "str_error (ProviderError m) = m"

datatype level = INFO | WARNING

type_synonym cell = "real option"

record 'a frame =
  index :: "key list"
  columns :: "(key \<times> 'a list) list"

type_synonym 'a series = "(key \<times> 'a) list"

text \<open>
  A log message is the text of its f-string, with the objects it renders kept as they
  are.
\<close>

datatype frag = Lit string | Obj py | Tbl "py frame"

datatype log_entry = Log level "frag list"

text \<open>
  A call returns the log entries it emitted, in order, and either the exception that left
  it (\<open>Inl\<close>) or its value (\<open>Inr\<close>).
\<close>

type_synonym 'a result = "log_entry list \<times> (error + 'a)"

definition ret :: "'a \<Rightarrow> 'a result" where
  "ret x = ([], Inr x)"

definition raise :: "error \<Rightarrow> 'a result" where
  "raise e = ([], Inl e)"

definition lift :: "error + 'a \<Rightarrow> 'a result" where
  "lift r = ([], r)"

definition bind :: "'a result \<Rightarrow> ('a \<Rightarrow> 'b result) \<Rightarrow> 'b result" where
  "bind m f = (case m of
       (l, Inl e) \<Rightarrow> (l, Inl e)
     | (l, Inr x) \<Rightarrow> (case f x of (l', r) \<Rightarrow> (l @ l', r)))"

definition try_except :: "'a result \<Rightarrow> (error \<Rightarrow> 'a result) \<Rightarrow> 'a result" where
  "try_except m h = (case m of
       (l, Inl e) \<Rightarrow> (case h e of (l', r) \<Rightarrow> (l @ l', r))
     | (l, Inr x) \<Rightarrow> (l, Inr x))"

definition logger_info :: "frag list \<Rightarrow> unit result" where
  "logger_info msg = ([Log INFO msg], Inr ())"

definition logger_warning :: "frag list \<Rightarrow> unit result" where
  "logger_warning msg = ([Log WARNING msg], Inr ())"

text \<open>
  The tools answer with a \<open>str\<close>. A table tool answers with a fixed message or with the
  markdown rendering of a table, kept as the table; a JSON tool answers with a
  \<open>py\<close> value, \<open>PStr\<close> for a message and \<open>PDumps\<close> for \<open>json.dumps\<close> (whose
  \<open>indent\<close> changes white space only and is left out).
\<close>

datatype 'a response = Message string | Markdown 'a

section \<open>Tables\<close>

text \<open>
  A table (pandas \<open>DataFrame\<close>, declared above) has a row index and named columns; a
  \<open>Series\<close> is a list of labelled values. A numeric cell is \<open>None\<close> where pandas holds
  \<open>NaN\<close> or \<open>None\<close>.
\<close>

definition df_empty :: "'a frame \<Rightarrow> bool" where
  "df_empty df = (index df = [] \<or> columns df = [])"

text \<open>\<open>df[name]\<close> for a column name, a string.\<close>

definition getitem :: "'a frame \<Rightarrow> string \<Rightarrow> error + 'a series" where
  "getitem df name = (case map_of (columns df) (KStr name) of
       None \<Rightarrow> Inl (KeyError name)
     | Some c \<Rightarrow> Inr (zip (index df) c))"

definition set_column :: "'a frame \<Rightarrow> key \<Rightarrow> 'a list \<Rightarrow> 'a frame" where
  "set_column df k vs =
     (if k \<in> fst ` set (columns df)
      then df\<lparr>columns := map (\<lambda>(k', c). if k' = k then (k', vs) else (k', c)) (columns df)\<rparr>
      else df\<lparr>columns := columns df @ [(k, vs)]\<rparr>)"

text \<open>
  \<open>df[k] = value\<close>: \<open>None\<close> is broadcast to every row; a Series is aligned on the row
  index (taken as it is when its index is the table's, looked up label by label
  otherwise, which pandas refuses when the Series has duplicate labels).
\<close>

definition setitem :: "cell frame \<Rightarrow> key \<Rightarrow> cell series option \<Rightarrow> error + cell frame" where
  "setitem df k v = (case v of
       None \<Rightarrow> Inr (set_column df k (replicate (length (index df)) None))
     | Some s \<Rightarrow>
         if map fst s = index df then Inr (set_column df k (map snd s))
         else if \<not> distinct (map fst s)
           then Inl (ValueError ''cannot reindex on an axis with duplicate labels'')
         else Inr (set_column df k
                (map (\<lambda>t. case map_of s t of None \<Rightarrow> None | Some c \<Rightarrow> c) (index df))))"

text \<open>
  \<open>df.join(other)\<close> is a left join on the row index: every row of \<open>df\<close>, in order, once
  for each row of \<open>other\<close> with the same label, and once with missing values when there is
  none. Overlapping column names are refused.
\<close>

fun positions :: "nat \<Rightarrow> key \<Rightarrow> key list \<Rightarrow> nat list" where
  "positions n t [] = []"
| "positions n t (r # rs) = (if r = t then [n] else []) @ positions (Suc n) t rs"

fun join_indexer :: "nat \<Rightarrow> key list \<Rightarrow> key list \<Rightarrow> (nat \<times> nat option) list" where
  "join_indexer i [] R = []"
| "join_indexer i (t # ts) R =
     (case positions 0 t R of
        [] \<Rightarrow> [(i, None)]
      | j # js \<Rightarrow> map (\<lambda>j'. (i, Some j')) (j # js)) @ join_indexer (Suc i) ts R"

definition take_left :: "(nat \<times> nat option) list \<Rightarrow> 'a list \<Rightarrow> 'a list" where
  "take_left ix c = map (\<lambda>p. c ! fst p) ix"

definition take_right :: "(nat \<times> nat option) list \<Rightarrow> cell list \<Rightarrow> cell list" where
  "take_right ix c = map (\<lambda>p. case snd p of None \<Rightarrow> None | Some j \<Rightarrow> c ! j) ix"

definition join :: "cell frame \<Rightarrow> cell frame \<Rightarrow> error + cell frame" where
  "join df other =
     (if fst ` set (columns df) \<inter> fst ` set (columns other) \<noteq> {}
      then Inl (ValueError ''columns overlap but no suffix specified'')
      else let ix = join_indexer 0 (index df) (index other) in
        Inr \<lparr>index = take_left ix (index df),
             columns = map (\<lambda>(k, c). (k, take_left ix c)) (columns df)
                     @ map (\<lambda>(k, c). (k, take_right ix c)) (columns other)\<rparr>)"

text \<open>
  \<open>s.rolling(window=w, min_periods=mp).min()\<close>: at row \<open>i\<close> the window is the last \<open>w\<close>
  rows up to \<open>i\<close> (fewer at the start); missing values are skipped, and the result is
  missing when fewer than \<open>mp\<close> values remain.
\<close>

definition window :: "nat \<Rightarrow> 'a list \<Rightarrow> nat \<Rightarrow> 'a list" where
  "window w xs i = drop (Suc i - w) (take (Suc i) xs)"

definition valid :: "cell list \<Rightarrow> real list" where
  "valid ws = concat (map (\<lambda>c. case c of None \<Rightarrow> [] | Some x \<Rightarrow> [x]) ws)"

definition agg :: "(real \<Rightarrow> real \<Rightarrow> real) \<Rightarrow> nat \<Rightarrow> cell list \<Rightarrow> cell" where
  "agg f mp ws = (case valid ws of
       [] \<Rightarrow> None
     | v # vs \<Rightarrow> if mp \<le> length (v # vs) then Some (fold f vs v) else None)"

definition rolling :: "(real \<Rightarrow> real \<Rightarrow> real) \<Rightarrow> nat \<Rightarrow> nat \<Rightarrow> cell series \<Rightarrow> cell series" where
  "rolling f w mp s =
     zip (map fst s) (map (\<lambda>i. agg f mp (window w (map snd s) i)) [0..<length s])"

definition rolling_min :: "nat \<Rightarrow> nat \<Rightarrow> cell series \<Rightarrow> cell series" where
  "rolling_min = rolling min"

definition rolling_max :: "nat \<Rightarrow> nat \<Rightarrow> cell series \<Rightarrow> cell series" where
  "rolling_max = rolling max"

text \<open>\<open>df.tail(n)\<close>: the last \<open>n\<close> rows, in order.\<close>

definition tail :: "nat \<Rightarrow> 'a frame \<Rightarrow> 'a frame" where
  "tail n df = \<lparr>index = drop (length (index df) - n) (index df),
                columns = map (\<lambda>(k, c). (k, drop (length c - n) c)) (columns df)\<rparr>"

section \<open>The external collaborators\<close>

text \<open>
  A price bar of the provider: timestamp, open, high, low, close, volume. A price or a
  volume may be missing (\<open>NaN\<close>). The fetched table has one row per bar, indexed by the
  timestamp.
\<close>

record bar =
  ts :: int
  bopen :: cell
  bhigh :: cell
  blow :: cell
  bclose :: cell
  bvolume :: cell

definition frame_of_bars :: "bar list \<Rightarrow> cell frame" where
  "frame_of_bars bars =
     \<lparr>index = map (\<lambda>b. KTime (ts b)) bars,
      columns = [(KStr ''Open'', map bopen bars),
                 (KStr ''High'', map bhigh bars),
                 (KStr ''Low'', map blow bars),
                 (KStr ''Close'', map bclose bars),
                 (KStr ''Volume'', map bvolume bars)]\<rparr>"

text \<open>
  The indicator library (\<open>pandas_ta\<close>), with its default arguments: each function may
  raise, return \<open>None\<close>, or return a Series (RSI) or a table (MACD, Bollinger Bands).
\<close>

record talib =
  ta_rsi :: "cell series \<Rightarrow> error + cell series option"
  ta_macd :: "cell series \<Rightarrow> error + cell frame option"
  ta_bbands :: "cell series \<Rightarrow> error + cell frame option"

text \<open>
  A search (\<open>yf.Search\<close>) holds its results when it is constructed; a quote is a dict
  with the ticker symbol, a string, under \<open>symbol\<close>, among the fields the provider puts
  before and after it.
\<close>

record quote =
  q_before :: "(key \<times> py) list"
  q_symbol :: string
  q_after :: "(key \<times> py) list"

record search_obj =
  s_all :: py
  s_quotes :: "quote list"
  s_news :: py

definition quote_dict :: "quote \<Rightarrow> py" where
  "quote_dict q = PDict (q_before q @ [(KStr ''symbol'', PStr (q_symbol q))] @ q_after q)"

text \<open>The data provider (\<open>yfinance\<close>); every accessor may raise.\<close>

record provider =
  ticker_history :: "string \<Rightarrow> string \<Rightarrow> string \<Rightarrow> error + bar list"
  ticker_get_news :: "string \<Rightarrow> error + py list"
  ticker_info :: "string \<Rightarrow> error + (key \<times> py) list"
  ticker_balance_sheet :: "string \<Rightarrow> error + py frame option"
  ticker_cashflow :: "string \<Rightarrow> error + py frame option"
  ticker_quarterly_income_stmt :: "string \<Rightarrow> error + py frame option"
  ticker_financials :: "string \<Rightarrow> error + py frame option"
  ticker_analyst_price_targets :: "string \<Rightarrow> error + py option"
  ticker_recommendations :: "string \<Rightarrow> error + py frame option"
  Search :: "string \<Rightarrow> nat option \<Rightarrow> error + search_obj"

section \<open>get_price_history\<close>

definition macd_step :: "talib \<Rightarrow> string \<Rightarrow> cell frame \<Rightarrow> cell frame result" where
  "macd_step ta symbol df =
     bind (lift (getitem df ''Close'')) (\<lambda>close.
     bind (lift (ta_macd ta close)) (\<lambda>m.
       case m of
         Some mf \<Rightarrow> lift (join df mf)
       | None \<Rightarrow>
           bind (logger_warning [Lit (''MACD could not be calculated for '' @ symbol
                                      @ '' (possibly not enough data)'')])
             (\<lambda>_. ret df)))"

definition bbands_step :: "talib \<Rightarrow> string \<Rightarrow> cell frame \<Rightarrow> cell frame result" where
  "bbands_step ta symbol df =
     bind (lift (getitem df ''Close'')) (\<lambda>close.
     bind (lift (ta_bbands ta close)) (\<lambda>bb.
       case bb of
         Some bf \<Rightarrow> lift (join df bf)
       | None \<Rightarrow>
           bind (logger_warning [Lit (''Bollinger Bands could not be calculated for '' @ symbol
                                      @ '' (possibly not enough data)'')])
             (\<lambda>_. ret df)))"

definition rsi_step :: "talib \<Rightarrow> cell frame \<Rightarrow> cell frame result" where
  "rsi_step ta df =
     bind (lift (getitem df ''Close'')) (\<lambda>close.
     bind (lift (ta_rsi ta close)) (\<lambda>r.
       lift (setitem df (KStr ''RSI'') r)))"

definition support_step :: "cell frame \<Rightarrow> cell frame result" where
  "support_step df =
     bind (lift (getitem df ''Close'')) (\<lambda>close.
       lift (setitem df (KStr ''Support'') (Some (rolling_min 20 1 close))))"

definition resistance_step :: "cell frame \<Rightarrow> cell frame result" where
  "resistance_step df =
     bind (lift (getitem df ''Close'')) (\<lambda>close.
       lift (setitem df (KStr ''Resistance'') (Some (rolling_max 20 1 close))))"

definition get_price_history ::
  "provider \<Rightarrow> talib \<Rightarrow> string \<Rightarrow> string \<Rightarrow> string \<Rightarrow> cell frame response result" where
  "get_price_history yf ta symbol period interval =
     bind (lift (ticker_history yf symbol period interval)) (\<lambda>bars.
       let df = frame_of_bars bars in
       if df_empty df then
         bind (logger_info [Lit (''No price history data available for '' @ symbol)])
           (\<lambda>_. ret (Message ''No data available.''))
       else
         bind (rsi_step ta df) (\<lambda>df.
         bind (macd_step ta symbol df) (\<lambda>df.
         bind (bbands_step ta symbol df) (\<lambda>df.
         bind (support_step df) (\<lambda>df.
         bind (resistance_step df) (\<lambda>df.
         bind (logger_info [Lit (''Retrieved price history for '' @ symbol @ '' with period=''
                                 @ period @ '', interval='' @ interval)])
           (\<lambda>_. ret (Markdown df))))))))"


section \<open>Dictionaries and strings\<close>

text \<open>
  \<open>d.get(k)\<close>, \<open>d.get(k, default)\<close>, truthiness, and a dict built item by item (a
  comprehension or repeated assignment): a key set again keeps its place and takes the
  new value.
\<close>

definition dict_get :: "(key \<times> py) list \<Rightarrow> key \<Rightarrow> py" where
  "dict_get d k = (case map_of d k of None \<Rightarrow> PNone | Some v \<Rightarrow> v)"

definition dict_get_default :: "(key \<times> py) list \<Rightarrow> key \<Rightarrow> py \<Rightarrow> py" where
  "dict_get_default d k dflt = (case map_of d k of None \<Rightarrow> dflt | Some v \<Rightarrow> v)"

definition dict_of :: "(key \<times> py) list \<Rightarrow> (key \<times> py) list" where
  "dict_of items = foldl (\<lambda>d (k, v). AList.update k v d) [] items"

fun truthy :: "py \<Rightarrow> bool" where
  "truthy PNone = False"
| "truthy (PBool b) = b"
| "truthy (PInt i) = (i \<noteq> 0)"
| "truthy (PNum x) = (x \<noteq> 0)"
| "truthy PNaN = True"
| "truthy (PStr s) = (s \<noteq> [])"
| "truthy (PDumps v) = True"
| "truthy (PList xs) = (xs \<noteq> [])"
| "truthy (PDict d) = (d \<noteq> [])"

definition startswith :: "string \<Rightarrow> string \<Rightarrow> bool" where
  "startswith s p = (take (length p) s = p)"

definition lower_char :: "char \<Rightarrow> char" where
  "lower_char c = (let n = (of_char c :: nat) in if 65 \<le> n \<and> n \<le> 90 then char_of (n + 32) else c)"

definition lower :: "string \<Rightarrow> string" where
  "lower s = map lower_char s"

fun digits :: "nat \<Rightarrow> string" where
  "digits n = (if n < 10 then [char_of (48 + n)] else digits (n div 10) @ [char_of (48 + n mod 10)])"

definition str_int :: "int \<Rightarrow> string" where
  "str_int i = (if i < 0 then ''-'' @ digits (nat (- i)) else digits (nat i))"

text \<open>
  \<open>str(k)\<close> of a key; \<open>fmt\<close> is the rendering pandas gives a timestamp.
\<close>

fun str_key :: "(int \<Rightarrow> string) \<Rightarrow> key \<Rightarrow> string" where
  "str_key fmt (KStr s) = s"
| "str_key fmt (KInt i) = str_int i"
| "str_key fmt (KTime t) = fmt t"

section \<open>df_to_dict_str_keys\<close>

text \<open>\<open>df.to_dict()\<close>: column label to (row label to value).\<close>

definition to_dict :: "py frame \<Rightarrow> py" where
  "to_dict df = PDict (dict_of (map (\<lambda>(k, c). (k, PDict (dict_of (zip (index df) c)))) (columns df)))"

definition str_keys :: "(int \<Rightarrow> string) \<Rightarrow> (key \<times> py) list \<Rightarrow> (key \<times> py) list" where
  "str_keys fmt items = dict_of (map (\<lambda>(kk, vv). (KStr (str_key fmt kk), vv)) items)"

fun str_keys_outer ::
  "(int \<Rightarrow> string) \<Rightarrow> (key \<times> py) list \<Rightarrow> (key \<times> py) list \<Rightarrow> error + (key \<times> py) list" where
  "str_keys_outer fmt acc [] = Inr acc"
| "str_keys_outer fmt acc ((k, v) # rest) =
     (case v of
        PDict inner \<Rightarrow>
          str_keys_outer fmt (AList.update (KStr (str_key fmt k)) (PDict (str_keys fmt inner)) acc) rest
      | _ \<Rightarrow> Inl (AttributeError ''object has no attribute items''))"

definition df_to_dict_str_keys :: "(int \<Rightarrow> string) \<Rightarrow> py frame option \<Rightarrow> error + py" where
  "df_to_dict_str_keys fmt df = (case df of
       None \<Rightarrow> Inr PNone
     | Some f \<Rightarrow>
         (case to_dict f of
            PDict d \<Rightarrow> map_sum id PDict (str_keys_outer fmt [] d)
          | d \<Rightarrow> Inr d))"

section \<open>get_stock_symbol_lookup, get_stock_news, search\<close>

definition get_stock_symbol_lookup :: "provider \<Rightarrow> string \<Rightarrow> string result" where
  "get_stock_symbol_lookup yf query =
     try_except
       (bind (lift (Search yf query (Some 1))) (\<lambda>search.
          case s_quotes search of
            [] \<Rightarrow> ret (''No symbols found matching '' @ [CHR 0x27] @ query @ [CHR 0x27] @ ''.'')
          | q # _ \<Rightarrow> ret (q_symbol q)))
       (\<lambda>e. ret (''Error looking up symbol: '' @ str_error e))"

fun simplify_item :: "py \<Rightarrow> error + py option" where
  "simplify_item (PDict item) =
     (case map_of item (KStr ''content'') of
        None \<Rightarrow> Inr None
      | Some (PDict content) \<Rightarrow>
          Inr (Some (PDict (dict_of
            [(KStr ''title'', dict_get_default content (KStr ''title'') (PStr ''No title'')),
             (KStr ''summary'', dict_get_default content (KStr ''summary'') (PStr ''No summary'')),
             (KStr ''pubDate'', dict_get_default content (KStr ''pubDate'') (PStr ''No date''))])))
      | Some _ \<Rightarrow> Inl (AttributeError ''object has no attribute get''))"
| "simplify_item _ = Inr None"

fun simplify_news :: "py list \<Rightarrow> py list \<Rightarrow> error + py list" where
  "simplify_news simplified [] = Inr simplified"
| "simplify_news simplified (item # rest) =
     (case simplify_item item of
        Inl e \<Rightarrow> Inl e
      | Inr None \<Rightarrow> simplify_news simplified rest
      | Inr (Some simplified_item) \<Rightarrow> simplify_news (simplified @ [simplified_item]) rest)"

definition get_stock_news :: "provider \<Rightarrow> string \<Rightarrow> py result" where
  "get_stock_news yf symbol =
     bind (logger_info [Lit (''Fetching news for symbol: '' @ symbol)]) (\<lambda>_.
     bind (lift (ticker_get_news yf symbol)) (\<lambda>news.
       if news = [] then
         bind (logger_info [Lit (''No news found for '' @ symbol)])
           (\<lambda>_. ret (PStr (''No news articles found for '' @ symbol @ ''.'')))
       else
         bind (lift (simplify_news [] news)) (\<lambda>simplified_news.
         bind (logger_info [Lit ''Retrieved '', Obj (PInt (int (length simplified_news))),
                            Lit ('' news articles for '' @ symbol @ '': ''),
                            Obj (PList simplified_news)])
           (\<lambda>_. ret (PDumps (PList simplified_news))))))"

definition search_results :: "string \<Rightarrow> string \<Rightarrow> py \<Rightarrow> py result" where
  "search_results query search_type result =
     bind (logger_info [Lit (''Search results for '' @ query @ '' ('' @ search_type @ ''): ''),
                        Obj result])
       (\<lambda>_. ret (PDumps result))"

definition search :: "provider \<Rightarrow> string \<Rightarrow> string \<Rightarrow> py result" where
  "search yf query search_type =
     bind (lift (Search yf query None)) (\<lambda>s.
       let st = lower search_type in
       if st = ''all'' then search_results query search_type (s_all s)
       else if st = ''quotes'' then
         search_results query search_type (PList (map quote_dict (s_quotes s)))
       else if st = ''news'' then search_results query search_type (s_news s)
       else ret (PStr ''Invalid output_type. Use 'all', 'quotes', or 'news'.''))"

section \<open>get_stock_recommendations\<close>

definition get_stock_recommendations :: "provider \<Rightarrow> string \<Rightarrow> py frame response result" where
  "get_stock_recommendations yf symbol =
     bind (lift (ticker_recommendations yf symbol)) (\<lambda>recs.
       case recs of
         None \<Rightarrow>
           bind (logger_info [Lit (''No recommendations found for '' @ symbol)])
             (\<lambda>_. ret (Message (''No analyst recommendations available for '' @ symbol @ ''.'')))
       | Some df \<Rightarrow>
           if df_empty df then
             bind (logger_info [Lit (''No recommendations found for '' @ symbol)])
               (\<lambda>_. ret (Message (''No analyst recommendations available for '' @ symbol @ ''.'')))
           else
             let recs = tail 20 df in
             bind (logger_info [Lit (''Retrieved recommendations for '' @ symbol @ '': ''), Tbl recs])
               (\<lambda>_. ret (Markdown recs)))"

section \<open>get_stock_info\<close>

text \<open>
  A statement of the ticker, read inside \<open>try\<close>: \<open>hasattr\<close> is false when reading the
  attribute raises \<open>AttributeError\<close>; any other exception is logged as a warning and
  the statement stays \<open>None\<close>.
\<close>

definition guarded :: "string \<Rightarrow> string \<Rightarrow> (error + 'a option) \<Rightarrow> ('a \<Rightarrow> error + py) \<Rightarrow> py result" where
  "guarded what symbol attr conv =
     try_except
       (case attr of
          Inl (AttributeError m) \<Rightarrow> ret PNone
        | Inl e \<Rightarrow> raise e
        | Inr None \<Rightarrow> ret PNone
        | Inr (Some v) \<Rightarrow> lift (conv v))
       (\<lambda>e. bind (logger_warning [Lit (''Could not fetch '' @ what @ '' for '' @ symbol @ '': ''
                                      @ str_error e)])
               (\<lambda>_. ret PNone))"

text \<open>\<open>{k: info.get(k) for k in ks}\<close>\<close>

definition pick :: "(key \<times> py) list \<Rightarrow> string list \<Rightarrow> py" where
  "pick d ks = PDict (dict_of (map (\<lambda>k. (KStr k, dict_get d (KStr k))) ks))"

text \<open>
  The essentials of a statement: empty unless the statement is truthy, and then
  \<open>statement.get(key)\<close> for each key.
\<close>

definition essentials :: "py \<Rightarrow> string list \<Rightarrow> error + py" where
  "essentials statement ks =
     (if truthy statement then
        (case statement of
           PDict d \<Rightarrow> Inr (pick d ks)
         | _ \<Rightarrow> Inl (AttributeError ''object has no attribute get''))
      else Inr (PDict []))"

definition etf_analysis_keys :: "string list" where
  "etf_analysis_keys =
     [''totalAssets'', ''netAssets'', ''netExpenseRatio'', ''ytdReturn'',
      ''threeYearAverageReturn'', ''fiveYearAverageReturn'', ''trailingThreeMonthReturns'',
      ''beta3Year'', ''dividendYield'', ''trailingAnnualDividendYield'',
      ''trailingAnnualDividendRate'']"

definition etf_trading_keys :: "string list" where
  "etf_trading_keys =
     [''regularMarketPrice'', ''navPrice'', ''volume'', ''regularMarketVolume'',
      ''averageVolume'', ''averageVolume10days'', ''averageDailyVolume10Day'',
      ''averageDailyVolume3Month'', ''bid'', ''ask'', ''bidSize'', ''askSize'']"

definition etf_price_movement_keys :: "string list" where
  "etf_price_movement_keys =
     [''fiftyTwoWeekLow'', ''fiftyTwoWeekHigh'', ''fiftyTwoWeekRange'',
      ''fiftyTwoWeekChangePercent'', ''fiftyDayAverage'', ''twoHundredDayAverage'',
      ''regularMarketChange'', ''regularMarketChangePercent'']"

definition etf_fund_info_keys :: "string list" where
  "etf_fund_info_keys =
     [''category'', ''fundFamily'', ''longBusinessSummary'', ''fundInceptionDate'',
      ''shortName'', ''longName'', ''symbol'']"

definition core_valuation_keys :: "string list" where
  "core_valuation_keys =
     [''currentPrice'', ''targetMeanPrice'', ''targetHighPrice'', ''targetLowPrice'',
      ''marketCap'', ''enterpriseValue'', ''trailingPE'', ''forwardPE'', ''priceToBook'',
      ''priceToSalesTrailing12Months'', ''trailingPegRatio'']"

definition financial_performance_keys :: "string list" where
  "financial_performance_keys =
     [''totalRevenue'', ''netIncomeToCommon'', ''grossProfits'', ''grossMargins'',
      ''operatingMargins'', ''ebitdaMargins'', ''profitMargins'', ''earningsGrowth'',
      ''revenueGrowth'', ''returnOnAssets'', ''returnOnEquity'', ''trailingEps'',
      ''forwardEps'', ''epsCurrentYear'']"

definition financial_health_keys :: "string list" where
  "financial_health_keys =
     [''totalCash'', ''totalCashPerShare'', ''totalDebt'', ''debtToEquity'',
      ''currentRatio'', ''quickRatio'', ''freeCashflow'', ''operatingCashflow'']"

definition market_data_keys :: "string list" where
  "market_data_keys =
     [''volume'', ''averageVolume'', ''beta'', ''fiftyTwoWeekLow'', ''fiftyTwoWeekHigh'',
      ''52WeekChange'', ''fiftyDayAverage'', ''twoHundredDayAverage'',
      ''recommendationMean'', ''recommendationKey'', ''numberOfAnalystOpinions'']"

definition dividend_info_keys :: "string list" where
  "dividend_info_keys =
     [''dividendRate'', ''dividendYield'', ''payoutRatio'', ''trailingAnnualDividendRate'',
      ''exDividendDate'']"

definition balance_sheet_essentials :: "string list" where
  "balance_sheet_essentials =
     [''Total Assets'', ''Stockholders Equity'', ''Working Capital'',
      ''Cash And Cash Equivalents'', ''Total Debt'', ''Net PPE'']"

definition income_stmt_items :: "string list" where
  "income_stmt_items =
     [''Total Revenue'', ''Gross Profit'', ''Operating Income'',
      ''Net Income'', ''Cost Of Revenue'', ''Research And Development'']"

definition cash_flow_highlights :: "string list" where
  "cash_flow_highlights =
     [''Operating Cash Flow'', ''Free Cash Flow'', ''Capital Expenditure'',
      ''Cash Dividends Paid'']"

definition etf_response :: "(key \<times> py) list \<Rightarrow> py \<Rightarrow> py" where
  "etf_response info stock_news =
     PDumps (PDict (dict_of
       [(KStr ''stock_type'', PStr ''ETF''),
        (KStr ''etf_analysis'', pick info etf_analysis_keys),
        (KStr ''trading_valuation'', pick info etf_trading_keys),
        (KStr ''price_movement'', pick info etf_price_movement_keys),
        (KStr ''fund_information'', pick info etf_fund_info_keys),
        (KStr ''stock_news'', stock_news)]))"

definition equity_response ::
  "(key \<times> py) list \<Rightarrow> py \<Rightarrow> py \<Rightarrow> py \<Rightarrow> py \<Rightarrow> py \<Rightarrow> error + py" where
  "equity_response info balance_sheet financials cash_flow analyst_price_targets stock_news =
     (case essentials balance_sheet balance_sheet_essentials of
        Inl e \<Rightarrow> Inl e
      | Inr balance_sheet_keys \<Rightarrow>
     (case essentials financials income_stmt_items of
        Inl e \<Rightarrow> Inl e
      | Inr income_stmt_keys \<Rightarrow>
     (case essentials cash_flow cash_flow_highlights of
        Inl e \<Rightarrow> Inl e
      | Inr cash_flow_keys \<Rightarrow>
          Inr (PDumps (PDict (dict_of
            [(KStr ''stock_type'', PStr ''EQUITY''),
             (KStr ''core_valuation_metrics'', pick info core_valuation_keys),
             (KStr ''financial_performance'', pick info financial_performance_keys),
             (KStr ''financial_health'', pick info financial_health_keys),
             (KStr ''market_data_trading'', pick info market_data_keys),
             (KStr ''dividend_information'', pick info dividend_info_keys),
             (KStr ''balance_sheet_essentials'', balance_sheet_keys),
             (KStr ''income_statement_key_items'', income_stmt_keys),
             (KStr ''cash_flow_highlights'', cash_flow_keys),
             (KStr ''analyst_price_targets'', analyst_price_targets),
             (KStr ''stock_news'', stock_news)]))))))"

text \<open>
  The first part of \<open>get_stock_info\<close>: the attribute map, looked up again under the
  symbol that \<open>get_stock_symbol_lookup\<close> gives when it is empty. \<open>Inl\<close> is the text the
  function returns at once.
\<close>

definition resolve_info :: "provider \<Rightarrow> string \<Rightarrow> (string + (key \<times> py) list \<times> string) result" where
  "resolve_info yf symbol =
     bind (lift (ticker_info yf symbol)) (\<lambda>info0.
       if info0 = [] then
         bind (logger_warning [Lit (''No info found for '' @ symbol @ '', attempting symbol lookup'')]) (\<lambda>_.
         bind (get_stock_symbol_lookup yf symbol) (\<lambda>correct_symbol.
           if correct_symbol \<noteq> [] \<and> \<not> startswith correct_symbol ''No symbols''
              \<and> \<not> startswith correct_symbol ''Error'' \<and> \<not> startswith correct_symbol ''Unable''
           then
             bind (logger_info [Lit (''Found correct symbol: '' @ correct_symbol)]) (\<lambda>_.
             bind (lift (ticker_info yf correct_symbol)) (\<lambda>info1.
               ret (Inr (info1, correct_symbol))))
           else
             ret (Inl (''Unable to find valid information for '' @ [CHR 0x27] @ symbol @ [CHR 0x27]
                       @ ''. Symbol lookup returned: '' @ correct_symbol))))
       else ret (Inr (info0, symbol)))"

definition get_stock_info :: "provider \<Rightarrow> (int \<Rightarrow> string) \<Rightarrow> string \<Rightarrow> py result" where
  "get_stock_info yf fmt symbol0 =
     bind (resolve_info yf symbol0) (\<lambda>resolved.
       case resolved of
         Inl message \<Rightarrow> ret (PStr message)
       | Inr (info, symbol) \<Rightarrow>
           let is_etf = (dict_get info (KStr ''quoteType'') = PStr ''ETF'') in
           bind (if is_etf then ret (PNone, PNone, PNone, PNone, PNone)
                 else
                   bind (guarded ''balance sheet'' symbol (ticker_balance_sheet yf symbol)
                           (\<lambda>df. df_to_dict_str_keys fmt (Some df))) (\<lambda>balance_sheet.
                   bind (guarded ''cash flow'' symbol (ticker_cashflow yf symbol)
                           (\<lambda>df. df_to_dict_str_keys fmt (Some df))) (\<lambda>cash_flow.
                   bind (guarded ''quarterly income statement'' symbol (ticker_quarterly_income_stmt yf symbol)
                           (\<lambda>df. df_to_dict_str_keys fmt (Some df))) (\<lambda>quarterly_income_stmt.
                   bind (guarded ''analyst price targets'' symbol (ticker_analyst_price_targets yf symbol)
                           Inr) (\<lambda>analyst_price_targets.
                   bind (guarded ''financials'' symbol (ticker_financials yf symbol)
                           (\<lambda>df. df_to_dict_str_keys fmt (Some df))) (\<lambda>financials.
                     ret (balance_sheet, cash_flow, quarterly_income_stmt,
                          analyst_price_targets, financials)))))))
             (\<lambda>(balance_sheet, cash_flow, quarterly_income_stmt, analyst_price_targets, financials).
           bind (get_stock_news yf symbol) (\<lambda>stock_news.
           bind (if is_etf then ret (etf_response info stock_news)
                 else lift (equity_response info balance_sheet financials cash_flow
                              analyst_price_targets stock_news)) (\<lambda>response.
           bind (logger_info [Lit (''Retrieved stock info for '' @ symbol @ '': ''), Obj response])
             (\<lambda>_. ret response)))))"

section \<open>Notions used to state the properties\<close>

text \<open>
  The tables that an indicator returns for a series with the given row labels have
  distinct row labels.
\<close>

definition distinct_tables ::
  "key list \<Rightarrow> (cell series \<Rightarrow> error + cell frame option) \<Rightarrow> bool" where
  "distinct_tables labels ind \<longleftrightarrow>
     (\<forall>s f. map fst s = labels \<longrightarrow> ind s = Inr (Some f) \<longrightarrow> distinct (index f))"

text \<open>The table has the given Close column, with a cell for each row.\<close>

definition has_close :: "cell frame \<Rightarrow> cell list \<Rightarrow> bool" where
  "has_close df c \<longleftrightarrow>
     map_of (columns df) (KStr ''Close'') = Some c \<and> length c = length (index df)"

text \<open>The table of an answer, and a column of it.\<close>

definition answer_table :: "'a response result \<Rightarrow> 'a option" where
  "answer_table a = (case snd a of Inr (Markdown t) \<Rightarrow> Some t | _ \<Rightarrow> None)"

definition answer_index :: "cell frame response result \<Rightarrow> key list option" where
  "answer_index a = map_option index (answer_table a)"

definition answer_column :: "string \<Rightarrow> cell frame response result \<Rightarrow> cell list option" where
  "answer_column name a =
     (case answer_table a of None \<Rightarrow> None | Some t \<Rightarrow> map_of (columns t) (KStr name))"

text \<open>The table has the rows of the fetched bars: their index and their five columns.\<close>

definition keeps_bars :: "bar list \<Rightarrow> cell frame \<Rightarrow> bool" where
  "keeps_bars bars df \<longleftrightarrow>
     index df = index (frame_of_bars bars) \<and>
     (\<forall>k \<in> fst ` set (columns (frame_of_bars bars)).
        map_of (columns df) k = map_of (columns (frame_of_bars bars)) k)"

text \<open>
  The news projection in the words of the specification: the triple (title, summary,
  pubDate) of an item that is a dict with a dict under \<open>content\<close>, with the placeholders
  for the fields that are missing; no triple for any other item.
\<close>

definition news_triple :: "py \<Rightarrow> py option" where
  "news_triple item = (case item of
       PDict d \<Rightarrow>
         (case map_of d (KStr ''content'') of
            Some (PDict content) \<Rightarrow>
              Some (PDict
                [(KStr ''title'',
                    case map_of content (KStr ''title'') of None \<Rightarrow> PStr ''No title'' | Some v \<Rightarrow> v),
                 (KStr ''summary'',
                    case map_of content (KStr ''summary'') of None \<Rightarrow> PStr ''No summary'' | Some v \<Rightarrow> v),
                 (KStr ''pubDate'',
                    case map_of content (KStr ''pubDate'') of None \<Rightarrow> PStr ''No date'' | Some v \<Rightarrow> v)])
          | _ \<Rightarrow> None)
     | _ \<Rightarrow> None)"

text \<open>What an item holds under \<open>content\<close>, when it is a dict and has the key, is a dict.\<close>

definition content_is_dict :: "py \<Rightarrow> bool" where
  "content_is_dict item = (case item of
       PDict d \<Rightarrow>
         (case map_of d (KStr ''content'') of
            Some (PDict content) \<Rightarrow> True
          | Some _ \<Rightarrow> False
          | None \<Rightarrow> True)
     | _ \<Rightarrow> True)"

text \<open>
  The thematic groups of the two classifications, each with the attribute names it
  selects, as \<open>get_stock_info\<close> writes them; \<open>attrs d ks\<close> is the group made of \<open>d\<close>.
\<close>

definition fund_groups :: "(string \<times> string list) list" where
  "fund_groups =
     [(''etf_analysis'', etf_analysis_keys),
      (''trading_valuation'', etf_trading_keys),
      (''price_movement'', etf_price_movement_keys),
      (''fund_information'', etf_fund_info_keys)]"

definition equity_info_groups :: "(string \<times> string list) list" where
  "equity_info_groups =
     [(''core_valuation_metrics'', core_valuation_keys),
      (''financial_performance'', financial_performance_keys),
      (''financial_health'', financial_health_keys),
      (''market_data_trading'', market_data_keys),
      (''dividend_information'', dividend_info_keys)]"

definition equity_statement_groups :: "(string \<times> string list) list" where
  "equity_statement_groups =
     [(''balance_sheet_essentials'', balance_sheet_essentials),
      (''income_statement_key_items'', income_stmt_items),
      (''cash_flow_highlights'', cash_flow_highlights)]"

definition equity_group_names :: "string list" where
  "equity_group_names =
     map fst equity_info_groups @ map fst equity_statement_groups @ [''analyst_price_targets'']"

definition attrs :: "(key \<times> py) list \<Rightarrow> string list \<Rightarrow> py" where
  "attrs d ks = PDict (map (\<lambda>k. (KStr k, dict_get d (KStr k))) ks)"

section \<open>Example inputs\<close>

definition no_provider :: provider where
  "no_provider =
     \<lparr>ticker_history = (\<lambda>_ _ _. Inl (ProviderError ''offline'')),
      ticker_get_news = (\<lambda>_. Inl (ProviderError ''offline'')),
      ticker_info = (\<lambda>_. Inl (ProviderError ''offline'')),
      ticker_balance_sheet = (\<lambda>_. Inl (ProviderError ''offline'')),
      ticker_cashflow = (\<lambda>_. Inl (ProviderError ''offline'')),
      ticker_quarterly_income_stmt = (\<lambda>_. Inl (ProviderError ''offline'')),
      ticker_financials = (\<lambda>_. Inl (ProviderError ''offline'')),
      ticker_analyst_price_targets = (\<lambda>_. Inl (ProviderError ''offline'')),
      ticker_recommendations = (\<lambda>_. Inl (ProviderError ''offline'')),
      Search = (\<lambda>_ _. Inl (ProviderError ''offline''))\<rparr>"

text \<open>A week of five trading days.\<close>

definition bars5 :: "bar list" where
  "bars5 =
     [\<lparr>ts = 1, bopen = Some 10, bhigh = Some 12, blow = Some 9, bclose = Some 11,
       bvolume = Some 100\<rparr>,
      \<lparr>ts = 2, bopen = Some 11, bhigh = Some 13, blow = Some 10, bclose = Some 12,
       bvolume = Some 120\<rparr>,
      \<lparr>ts = 3, bopen = Some 12, bhigh = Some 12, blow = Some 8, bclose = Some 9,
       bvolume = Some 90\<rparr>,
      \<lparr>ts = 4, bopen = Some 9, bhigh = Some 14, blow = Some 9, bclose = Some 13,
       bvolume = Some 150\<rparr>,
      \<lparr>ts = 5, bopen = Some 13, bhigh = Some 13, blow = Some 10, bclose = Some 10,
       bvolume = Some 80\<rparr>]"

definition yf_week :: provider where
  "yf_week = no_provider\<lparr>ticker_history := (\<lambda>_ _ _. Inr bars5)\<rparr>"

text \<open>
  An indicator library with the minimum lengths of \<open>pandas_ta\<close> (14 rows for RSI, 26 for
  MACD, 5 for the bands): below them it returns \<open>None\<close>. Its values are a moving average,
  missing until the window is full.
\<close>

definition sma :: "nat \<Rightarrow> cell series \<Rightarrow> cell list" where
  "sma n s = map (\<lambda>i. if Suc i < n then None
                       else Some (sum_list (valid (window n (map snd s) i)) / real n))
               [0..<length s]"

definition ta_short :: talib where
  "ta_short =
     \<lparr>ta_rsi = (\<lambda>s. Inr (if length s < 14 then None else Some (zip (map fst s) (sma 14 s)))),
      ta_macd = (\<lambda>s. Inr (if length s < 26 then None
                  else Some \<lparr>index = map fst s, columns = [(KStr ''MACD_12_26_9'', sma 26 s)]\<rparr>)),
      ta_bbands = (\<lambda>s. Inr (if length s < 5 then None
                  else Some \<lparr>index = map fst s, columns = [(KStr ''BBM_5_2.0'', sma 5 s)]\<rparr>))\<rparr>"

definition week_log :: "log_entry list" where
  "week_log =
     [Log WARNING [Lit ''MACD could not be calculated for AAPL (possibly not enough data)''],
      Log INFO [Lit ''Retrieved price history for AAPL with period=1wk, interval=1d'']]"

definition week_table :: "cell frame" where
  "week_table =
     \<lparr>index = [KTime 1, KTime 2, KTime 3, KTime 4, KTime 5],
      columns =
        [(KStr ''Open'', [Some 10, Some 11, Some 12, Some 9, Some 13]),
         (KStr ''High'', [Some 12, Some 13, Some 12, Some 14, Some 13]),
         (KStr ''Low'', [Some 9, Some 10, Some 8, Some 9, Some 10]),
         (KStr ''Close'', [Some 11, Some 12, Some 9, Some 13, Some 10]),
         (KStr ''Volume'', [Some 100, Some 120, Some 90, Some 150, Some 80]),
         (KStr ''RSI'', [None, None, None, None, None]),
         (KStr ''BBM_5_2.0'', [None, None, None, None, Some 11]),
         (KStr ''Support'', [Some 11, Some 11, Some 9, Some 9, Some 9]),
         (KStr ''Resistance'', [Some 11, Some 12, Some 12, Some 13, Some 13])]\<rparr>"

text \<open>A month of 22 trading days, with the lowest close on the first day.\<close>

definition bars22 :: "bar list" where
  "bars22 = map (\<lambda>i. \<lparr>ts = int i, bopen = Some 10, bhigh = Some 30, blow = Some 1,
                       bclose = Some (if i = 0 then 1 else 10 + real ((i * 7) mod 11)),
                       bvolume = Some 100\<rparr>) [0..<22]"

definition closes22 :: "real list" where
  "closes22 = map (\<lambda>i. if i = 0 then 1 else 10 + real ((i * 7) mod 11)) [0..<22]"

definition yf_month :: provider where
  "yf_month = no_provider\<lparr>ticker_history := (\<lambda>_ _ _. Inr bars22)\<rparr>"

text \<open>Four days of which the first and the third have no close.\<close>

definition bars_gap :: "bar list" where
  "bars_gap =
     [\<lparr>ts = 1, bopen = Some 2, bhigh = Some 4, blow = Some 1, bclose = None, bvolume = Some 0\<rparr>,
      \<lparr>ts = 2, bopen = Some 2, bhigh = Some 4, blow = Some 1, bclose = Some 3, bvolume = Some 5\<rparr>,
      \<lparr>ts = 3, bopen = Some 2, bhigh = Some 4, blow = Some 1, bclose = None, bvolume = Some 0\<rparr>,
      \<lparr>ts = 4, bopen = Some 2, bhigh = Some 4, blow = Some 1, bclose = Some 1, bvolume = Some 5\<rparr>]"

definition yf_gap :: provider where
  "yf_gap = no_provider\<lparr>ticker_history := (\<lambda>_ _ _. Inr bars_gap)\<rparr>"

text \<open>
  Four bars with the timestamps 3, 1, 3, 2, and an indicator library whose MACD table has
  the row labels and the values of the series it is given.
\<close>

definition bars_dup :: "bar list" where
  "bars_dup =
     [\<lparr>ts = 3, bopen = Some 2, bhigh = Some 4, blow = Some 1, bclose = Some 3, bvolume = Some 5\<rparr>,
      \<lparr>ts = 1, bopen = Some 2, bhigh = Some 4, blow = Some 1, bclose = Some 2, bvolume = Some 5\<rparr>,
      \<lparr>ts = 3, bopen = Some 2, bhigh = Some 4, blow = Some 1, bclose = Some 4, bvolume = Some 5\<rparr>,
      \<lparr>ts = 2, bopen = Some 2, bhigh = Some 4, blow = Some 1, bclose = Some 1, bvolume = Some 5\<rparr>]"

definition yf_dup :: provider where
  "yf_dup = no_provider\<lparr>ticker_history := (\<lambda>_ _ _. Inr bars_dup)\<rparr>"

definition ta_echo :: talib where
  "ta_echo =
     \<lparr>ta_rsi = (\<lambda>s. Inr None),
      ta_macd = (\<lambda>s. Inr (Some \<lparr>index = map fst s,
                                   columns = [(KStr ''MACD_12_26_9'', map snd s)]\<rparr>)),
      ta_bbands = (\<lambda>s. Inr None)\<rparr>"

text \<open>
  An indicator library whose tables have a row for the last label only: its MACD table
  holds the last close, its bands the last close too.
\<close>

definition ta_last :: talib where
  "ta_last =
     \<lparr>ta_rsi = (\<lambda>s. Inr None),
      ta_macd = (\<lambda>s. Inr (Some \<lparr>index = map fst (drop (length s - 1) s),
                 columns = [(KStr ''MACD_12_26_9'', map snd (drop (length s - 1) s))]\<rparr>)),
      ta_bbands = (\<lambda>s. Inr (Some \<lparr>index = map fst (drop (length s - 1) s),
                 columns = [(KStr ''BBM_5_2.0'', map snd (drop (length s - 1) s))]\<rparr>))\<rparr>"

text \<open>
  An indicator library whose MACD computation raises, and one whose Bollinger
  computation raises on a series of fewer than 20 rows.
\<close>

definition ta_bbands_strict :: talib where
  "ta_bbands_strict = ta_short
     \<lparr>ta_bbands := (\<lambda>s. if length s < 20 then Inl (ValueError ''too short'') else Inr None)\<rparr>"


definition ta_macd_raises :: talib where
  "ta_macd_raises = ta_short\<lparr>ta_macd := (\<lambda>_. Inl (ProviderError ''macd failed''))\<rparr>"

text \<open>
  A provider that knows neither \<open>XYZ\<close> nor the symbol \<open>XYZ.F\<close> its search proposes for
  it: the attribute map of both is empty.
\<close>

definition yf_unknown :: provider where
  "yf_unknown = no_provider
     \<lparr>ticker_get_news := (\<lambda>_. Inr []),
      ticker_info := (\<lambda>_. Inr []),
      ticker_balance_sheet := (\<lambda>_. Inr None),
      ticker_cashflow := (\<lambda>_. Inr None),
      ticker_quarterly_income_stmt := (\<lambda>_. Inr None),
      ticker_financials := (\<lambda>_. Inr None),
      ticker_analyst_price_targets := (\<lambda>_. Inr None),
      Search := (\<lambda>_ _. Inr \<lparr>s_all = PDict [],
                             s_quotes = [\<lparr>q_before = [(KStr ''exchange'', PStr ''FRA'')],
                                          q_symbol = ''XYZ.F'', q_after = []\<rparr>],
                             s_news = PList []\<rparr>)\<rparr>"

definition xyz_response :: py where
  "xyz_response =
     PDumps (PDict
       [(KStr ''stock_type'', PStr ''EQUITY''),
        (KStr ''core_valuation_metrics'', attrs [] core_valuation_keys),
        (KStr ''financial_performance'', attrs [] financial_performance_keys),
        (KStr ''financial_health'', attrs [] financial_health_keys),
        (KStr ''market_data_trading'', attrs [] market_data_keys),
        (KStr ''dividend_information'', attrs [] dividend_info_keys),
        (KStr ''balance_sheet_essentials'', PDict []),
        (KStr ''income_statement_key_items'', PDict []),
        (KStr ''cash_flow_highlights'', PDict []),
        (KStr ''analyst_price_targets'', PNone),
        (KStr ''stock_news'', PStr ''No news articles found for XYZ.F.'')])"

text \<open>A fund, with three news items of which one has a content.\<close>

definition spy_info :: "(key \<times> py) list" where
  "spy_info = [(KStr ''quoteType'', PStr ''ETF''), (KStr ''volume'', PInt 3)]"

definition spy_news :: "py list" where
  "spy_news =
     [PDict [(KStr ''id'', PInt 1), (KStr ''content'', PDict [(KStr ''title'', PStr ''Rates'')])],
      PStr ''advertisement'',
      PDict [(KStr ''id'', PInt 2)]]"

definition yf_spy :: provider where
  "yf_spy = no_provider\<lparr>ticker_get_news := (\<lambda>_. Inr spy_news), ticker_info := (\<lambda>_. Inr spy_info)\<rparr>"

text \<open>An equity with a balance sheet and no news.\<close>

definition sheet :: "py frame" where
  "sheet = \<lparr>index = [KStr ''Total Assets'', KInt 7],
            columns = [(KTime 2023, [PNum 10, PNaN]), (KTime 2024, [PNum 12, PInt 1])]\<rparr>"

text \<open>A table with the row labels \<open>7\<close> and \<open>'7'\<close>, which have the same \<open>str\<close>.\<close>

definition sheet_clash :: "py frame" where
  "sheet_clash = \<lparr>index = [KInt 7, KStr ''7''], columns = [(KTime 2023, [PNum 10, PNum 11])]\<rparr>"

definition msft_info :: "(key \<times> py) list" where
  "msft_info = [(KStr ''quoteType'', PStr ''EQUITY''), (KStr ''currentPrice'', PNum 420)]"

definition yf_msft :: provider where
  "yf_msft = no_provider
     \<lparr>ticker_get_news := (\<lambda>_. Inr []),
      ticker_info := (\<lambda>_. Inr msft_info),
      ticker_balance_sheet := (\<lambda>_. Inr (Some sheet))\<rparr>"

text \<open>A news item whose content is \<open>None\<close>.\<close>

definition yf_null_content :: provider where
  "yf_null_content = no_provider\<lparr>ticker_get_news := (\<lambda>_. Inr [PDict [(KStr ''content'', PNone)]])\<rparr>"

text \<open>A search with one quote.\<close>

definition yf_search :: provider where
  "yf_search = no_provider
     \<lparr>Search := (\<lambda>_ _. Inr \<lparr>s_all = PDict [(KStr ''count'', PInt 1)],
                             s_quotes = [\<lparr>q_before = [(KStr ''exchange'', PStr ''NMS'')],
                                          q_symbol = ''AAPL'', q_after = []\<rparr>],
                             s_news = PList []\<rparr>)\<rparr>"

text \<open>A recommendations table of 22 rows, and a provider without recommendations.\<close>

definition recs22 :: "py frame" where
  "recs22 = \<lparr>index = map (\<lambda>i. KInt (int i)) [0..<22],
             columns = [(KStr ''buy'', map (\<lambda>i. PInt (2 * int i)) [0..<22])]\<rparr>"

definition yf_recs :: provider where
  "yf_recs = no_provider\<lparr>ticker_recommendations := (\<lambda>_. Inr (Some recs22))\<rparr>"

definition yf_no_recs :: provider where
  "yf_no_recs = no_provider\<lparr>ticker_recommendations := (\<lambda>_. Inr None)\<rparr>"


section \<open>Lemmas\<close>

subsection \<open>Results, columns and joins\<close>

lemma bind_InrE:
  assumes "bind m f = (l, Inr y)"
  obtains l1 x l2 where "m = (l1, Inr x)" "f x = (l2, Inr y)" "l = l1 @ l2"
  using assms unfolding bind_def by (auto split: prod.splits sum.splits)

lemma bind_lift_Inr: "bind (lift (Inr x)) f = f x"
  by (simp add: bind_def lift_def split: prod.splits)

lemma bind_lift_Inl: "bind (lift (Inl e)) f = ([], Inl e)"
  by (simp add: bind_def lift_def)

lemma lift_eq: "lift r = (l, r') \<longleftrightarrow> l = [] \<and> r = r'"
  by (auto simp: lift_def)

lemma ret_eq: "ret x = (l, r) \<longleftrightarrow> l = [] \<and> r = Inr x"
  by (auto simp: ret_def)

lemma index_set_column: "index (set_column df k vs) = index df"
  by (simp add: set_column_def)

lemma map_of_replace:
  "map_of (map (\<lambda>(k', c). if k' = k then (k', vs) else (k', c)) xs) k'' =
     (if k'' = k then (if k \<in> fst ` set xs then Some vs else None) else map_of xs k'')"
  by (induction xs) (auto simp: rev_image_eqI)

lemma map_of_set_column:
  "map_of (columns (set_column df k vs)) = (map_of (columns df))(k \<mapsto> vs)"
proof (cases "k \<in> fst ` set (columns df)")
  case True
  then show ?thesis
    by (auto simp: set_column_def map_of_replace fun_eq_iff)
next
  case False
  then have "map_of (columns df) k = None"
    by (simp add: map_of_eq_None_iff)
  with False show ?thesis
    by (auto simp: set_column_def fun_eq_iff map_add_def split: option.splits)
qed

lemma positions_bound:
  "j \<in> set (positions n t rs) \<Longrightarrow> n \<le> j \<and> j < n + length rs"
  by (induction rs arbitrary: n) (fastforce split: if_splits)+

lemma positions_notin: "t \<notin> set rs \<Longrightarrow> positions n t rs = []"
  by (induction rs arbitrary: n) auto

lemma positions_distinct: "distinct rs \<Longrightarrow> length (positions n t rs) \<le> 1"
  by (induction rs arbitrary: n) (auto simp: positions_notin)

lemma join_indexer_fst:
  "p \<in> set (join_indexer i L R) \<Longrightarrow> i \<le> fst p \<and> fst p < i + length L"
  by (induction L arbitrary: i) (fastforce split: list.splits)+

lemma join_indexer_length: "length L \<le> length (join_indexer i L R)"
proof (induction L arbitrary: i)
  case Nil
  then show ?case by simp
next
  case (Cons t ts)
  have "1 \<le> length (case positions 0 t R of [] \<Rightarrow> [(i, None :: nat option)]
                      | j # js \<Rightarrow> map (\<lambda>j'. (i, Some j')) (j # js))"
    by (cases "positions 0 t R") auto
  with Cons.IH [of "Suc i"] show ?case
    by simp
qed

lemma join_indexer_distinct:
  "distinct R \<Longrightarrow> map fst (join_indexer i L R) = [i..<i + length L]"
proof (induction L arbitrary: i)
  case Nil
  then show ?case by simp
next
  case (Cons t ts)
  have "length (positions 0 t R) \<le> 1"
    using Cons.prems by (rule positions_distinct)
  then have "map fst (case positions 0 t R of [] \<Rightarrow> [(i, None)]
                      | j # js \<Rightarrow> map (\<lambda>j'. (i, Some j')) (j # js)) = [i]"
    by (cases "positions 0 t R") auto
  moreover have "map fst (join_indexer (Suc i) ts R) = [Suc i..<Suc (i + length ts)]"
    using Cons.IH [OF Cons.prems, of "Suc i"] by simp
  moreover have "[i..<Suc (i + length ts)] = i # [Suc i..<Suc (i + length ts)]"
    by (rule upt_conv_Cons) simp
  ultimately show ?case
    by (simp del: upt_Suc)
qed

lemma join_indexer_tight:
  "length (join_indexer i L R) = length L \<Longrightarrow> map fst (join_indexer i L R) = [i..<i + length L]"
proof (induction L arbitrary: i)
  case Nil
  then show ?case by simp
next
  case (Cons t ts)
  define blk where "blk = (case positions 0 t R of [] \<Rightarrow> [(i, None :: nat option)]
                      | j # js \<Rightarrow> map (\<lambda>j'. (i, Some j')) (j # js))"
  have one: "1 \<le> length blk" and fsts: "\<forall>p \<in> set blk. fst p = i"
    unfolding blk_def by (cases "positions 0 t R"; auto)+
  have "length blk + length (join_indexer (Suc i) ts R) = Suc (length ts)"
    using Cons.prems by (simp add: blk_def)
  with one join_indexer_length [of ts "Suc i" R]
  have lb: "length blk = 1" and lr: "length (join_indexer (Suc i) ts R) = length ts"
    by linarith+
  from lb fsts have "map fst blk = [i]"
    by (cases blk) auto
  moreover have "map fst (join_indexer (Suc i) ts R) = [Suc i..<Suc (i + length ts)]"
    using Cons.IH [OF lr] by simp
  moreover have "[i..<Suc (i + length ts)] = i # [Suc i..<Suc (i + length ts)]"
    by (rule upt_conv_Cons) simp
  ultimately show ?case
    by (simp add: blk_def del: upt_Suc)
qed

lemma take_left_all: "map fst ix = [0..<length c] \<Longrightarrow> take_left ix c = c"
proof -
  assume h: "map fst ix = [0..<length c]"
  have "take_left ix c = map ((!) c) (map fst ix)"
    by (simp add: take_left_def comp_def)
  then show ?thesis
    using h by (simp add: map_nth)
qed

subsection \<open>The Close column through the steps of get_price_history\<close>

lemma setitem_shape: "setitem df k v = Inr df' \<Longrightarrow> \<exists>vs. df' = set_column df k vs"
  by (auto simp: setitem_def split: option.splits if_splits)

lemma has_close_set_column:
  "k \<noteq> KStr ''Close'' \<Longrightarrow> has_close (set_column df k vs) cl = has_close df cl"
  by (simp add: has_close_def map_of_set_column index_set_column)

lemma rsi_keeps:
  assumes "rsi_step ta df = (l, Inr df')" and "has_close df cl"
  shows "has_close df' cl"
proof -
  from assms(1) obtain r where "setitem df (KStr ''RSI'') r = Inr df'"
    unfolding rsi_step_def by (auto elim!: bind_InrE simp: lift_eq)
  then obtain vs where "df' = set_column df (KStr ''RSI'') vs"
    using setitem_shape by blast
  with assms(2) show ?thesis
    by (simp add: has_close_set_column)
qed

lemma join_keeps:
  assumes "join df other = Inr df'" and "has_close df c"
  shows "\<exists>c'. has_close df' c' \<and> set c' \<subseteq> set c \<and> length c \<le> length c'
               \<and> (length c' = length c \<longrightarrow> c' = c)"
proof -
  define ix where "ix = join_indexer 0 (index df) (index other)"
  have df': "df' = \<lparr>index = take_left ix (index df),
             columns = map (\<lambda>(k, c). (k, take_left ix c)) (columns df)
                     @ map (\<lambda>(k, c). (k, take_right ix c)) (columns other)\<rparr>"
    using assms(1) by (auto simp: join_def ix_def Let_def split: if_splits)
  have c: "map_of (columns df) (KStr ''Close'') = Some c"
    and len: "length c = length (index df)"
    using assms(2) by (simp_all add: has_close_def)
  have bound: "\<forall>p \<in> set ix. fst p < length c"
    using join_indexer_fst [of _ 0 "index df" "index other"] by (auto simp: ix_def len)
  have "map_of (columns df') (KStr ''Close'') = Some (take_left ix c)"
    by (simp add: df' map_of_map c map_add_def)
  moreover have "length (take_left ix c) = length (index df')"
    by (simp add: df' take_left_def)
  moreover have "set (take_left ix c) \<subseteq> set c"
    using bound by (auto simp: take_left_def)
  moreover have "length c \<le> length (take_left ix c)"
    using join_indexer_length [of "index df" 0 "index other"]
    by (simp add: take_left_def ix_def len)
  moreover have "length (take_left ix c) = length c \<longrightarrow> take_left ix c = c"
  proof
    assume "length (take_left ix c) = length c"
    then have "length (join_indexer 0 (index df) (index other)) = length (index df)"
      by (simp add: take_left_def ix_def len)
    then have "map fst ix = [0..<length c]"
      using join_indexer_tight [of 0 "index df" "index other"] by (simp add: ix_def len)
    then show "take_left ix c = c"
      by (rule take_left_all)
  qed
  ultimately show ?thesis
    unfolding has_close_def by metis
qed

lemma getitem_close: "has_close df c \<Longrightarrow> getitem df ''Close'' = Inr (zip (index df) c)"
  by (simp add: has_close_def getitem_def)

lemma join_or_warn_keeps:
  assumes "(case m of Some mf \<Rightarrow> lift (join df mf)
            | None \<Rightarrow> bind (logger_warning msg) (\<lambda>_. ret df)) = (l, Inr df')"
    and "has_close df cl"
  shows "\<exists>cl'. has_close df' cl' \<and> set cl' \<subseteq> set cl \<and> length cl \<le> length cl'
               \<and> (length cl' = length cl \<longrightarrow> cl' = cl)"
proof (cases m)
  case None
  with assms(1) have "df' = df"
    by (auto elim!: bind_InrE simp: ret_eq)
  with assms(2) show ?thesis by auto
next
  case (Some mf)
  with assms(1) have "join df mf = Inr df'"
    by (simp add: lift_eq)
  then show ?thesis
    using assms(2) by (rule join_keeps)
qed

lemma macd_keeps:
  assumes "macd_step ta symbol df = (l, Inr df')" and "has_close df cl"
  shows "\<exists>cl'. has_close df' cl' \<and> set cl' \<subseteq> set cl \<and> length cl \<le> length cl'
               \<and> (length cl' = length cl \<longrightarrow> cl' = cl)"
  using assms(1) unfolding macd_step_def
  by (elim bind_InrE) (erule join_or_warn_keeps [OF _ assms(2)])

lemma bbands_keeps:
  assumes "bbands_step ta symbol df = (l, Inr df')" and "has_close df cl"
  shows "\<exists>cl'. has_close df' cl' \<and> set cl' \<subseteq> set cl \<and> length cl \<le> length cl'
               \<and> (length cl' = length cl \<longrightarrow> cl' = cl)"
  using assms(1) unfolding bbands_step_def
  by (elim bind_InrE) (erule join_or_warn_keeps [OF _ assms(2)])

subsection \<open>Rolling windows\<close>

lemma window_map: "window w (map f xs) i = map f (window w xs i)"
  by (simp add: window_def drop_map take_map)

lemma valid_Some: "valid (map Some xs) = xs"
  by (induction xs) (auto simp: valid_def)

lemma window_nonempty: "i < length xs \<Longrightarrow> 0 < w \<Longrightarrow> window w xs i \<noteq> []"
  by (auto simp: window_def)

lemma set_drop_nth: "set (drop a ys) = (!) ys ` {a..<length ys}"
proof -
  have "drop a ys = map ((!) ys) [a..<length ys]"
    by (rule nth_equalityI) auto
  then have "set (drop a ys) = set (map ((!) ys) [a..<length ys])"
    by simp
  then show ?thesis
    by simp
qed

lemma window_set: "i < length xs \<Longrightarrow> set (window w xs i) = (!) xs ` {Suc i - w..i}"
proof -
  assume i: "i < length xs"
  have "length (take (Suc i) xs) = Suc i"
    using i by simp
  then have "set (window w xs i) = (!) (take (Suc i) xs) ` {Suc i - w..<Suc i}"
    unfolding window_def set_drop_nth by (simp only:)
  also have "\<dots> = (!) xs ` {Suc i - w..<Suc i}"
    by (rule image_cong) auto
  finally show ?thesis
    by (simp add: atLeastLessThanSuc_atLeastAtMost)
qed

lemma set_valid: "set (valid ws) = {x. Some x \<in> set ws}"
  by (induction ws) (auto simp: valid_def split: option.splits)

lemma window_present:
  assumes "i < length c"
  shows "set (valid (window 20 c i)) = {x. \<exists>j. i - 19 \<le> j \<and> j \<le> i \<and> c ! j = Some x}"
proof -
  have w: "set (window 20 c i) = (!) c ` {i - 19..i}"
    using window_set [OF assms, of 20] by simp
  have "Some x \<in> (!) c ` {i - 19..i} \<longleftrightarrow> (\<exists>j. i - 19 \<le> j \<and> j \<le> i \<and> c ! j = Some x)" for x
  proof
    assume "Some x \<in> (!) c ` {i - 19..i}"
    then obtain j where "j \<in> {i - 19..i}" "Some x = c ! j"
      by (rule imageE)
    then show "\<exists>j. i - 19 \<le> j \<and> j \<le> i \<and> c ! j = Some x"
      by (intro exI [of _ j]) simp
  next
    assume "\<exists>j. i - 19 \<le> j \<and> j \<le> i \<and> c ! j = Some x"
    then obtain j where "i - 19 \<le> j" "j \<le> i" "c ! j = Some x"
      by blast
    then have "j \<in> {i - 19..i}" "Some x = c ! j"
      by simp_all
    then show "Some x \<in> (!) c ` {i - 19..i}"
      by (intro image_eqI [of _ _ j])
  qed
  then show ?thesis
    unfolding set_valid w by (rule Collect_cong)
qed

lemma agg_min:
  assumes "i < length c"
  shows "agg min 1 (window 20 c i) =
           (if {x. \<exists>j. i - 19 \<le> j \<and> j \<le> i \<and> c ! j = Some x} = {} then None
            else Some (Min {x. \<exists>j. i - 19 \<le> j \<and> j \<le> i \<and> c ! j = Some x}))"
proof (cases "valid (window 20 c i)")
  case Nil
  then have "set (valid (window 20 c i)) = {}"
    by simp
  then have e: "{x. \<exists>j. i - 19 \<le> j \<and> j \<le> i \<and> c ! j = Some x} = {}"
    unfolding window_present [OF assms] .
  show ?thesis
    unfolding e by (simp add: agg_def Nil)
next
  case (Cons v vs)
  have m: "Min (set (v # vs)) = fold min vs v"
    by (rule Min.set_eq_fold)
  have s: "{x. \<exists>j. i - 19 \<le> j \<and> j \<le> i \<and> c ! j = Some x} = set (v # vs)"
    unfolding window_present [OF assms, symmetric] Cons ..
  have ne: "set (v # vs) \<noteq> {}"
    by simp
  have "agg min 1 (window 20 c i) = Some (fold min vs v)"
    by (simp add: agg_def Cons)
  then show ?thesis
    unfolding s m [symmetric] using ne by (simp only: if_False)
qed

lemma agg_max:
  assumes "i < length c"
  shows "agg max 1 (window 20 c i) =
           (if {x. \<exists>j. i - 19 \<le> j \<and> j \<le> i \<and> c ! j = Some x} = {} then None
            else Some (Max {x. \<exists>j. i - 19 \<le> j \<and> j \<le> i \<and> c ! j = Some x}))"
proof (cases "valid (window 20 c i)")
  case Nil
  then have "set (valid (window 20 c i)) = {}"
    by simp
  then have e: "{x. \<exists>j. i - 19 \<le> j \<and> j \<le> i \<and> c ! j = Some x} = {}"
    unfolding window_present [OF assms] .
  show ?thesis
    unfolding e by (simp add: agg_def Nil)
next
  case (Cons v vs)
  have m: "Max (set (v # vs)) = fold max vs v"
    by (rule Max.set_eq_fold)
  have s: "{x. \<exists>j. i - 19 \<le> j \<and> j \<le> i \<and> c ! j = Some x} = set (v # vs)"
    unfolding window_present [OF assms, symmetric] Cons ..
  have ne: "set (v # vs) \<noteq> {}"
    by simp
  have "agg max 1 (window 20 c i) = Some (fold max vs v)"
    by (simp add: agg_def Cons)
  then show ?thesis
    unfolding s m [symmetric] using ne by (simp only: if_False)
qed

lemma present_all:
  assumes "i < length cl"
  shows "{x. \<exists>j. i - 19 \<le> j \<and> j \<le> i \<and> map Some cl ! j = Some x} = (!) cl ` {i - 19..i}"
  using assms by (auto simp: image_iff)

lemma all_present:
  fixes c :: "cell list"
  assumes gen: "\<forall>i < length c.
                 sp ! i = (if {x. \<exists>j. i - 19 \<le> j \<and> j \<le> i \<and> c ! j = Some x} = {} then None
                            else Some (Min {x. \<exists>j. i - 19 \<le> j \<and> j \<le> i \<and> c ! j = Some x}))
               \<and> rs ! i = (if {x. \<exists>j. i - 19 \<le> j \<and> j \<le> i \<and> c ! j = Some x} = {} then None
                            else Some (Max {x. \<exists>j. i - 19 \<le> j \<and> j \<le> i \<and> c ! j = Some x}))"
    and cc: "c = map Some cl" and i: "i < length cl"
  shows "sp ! i = Some (Min ((!) cl ` {i - 19..i})) \<and> rs ! i = Some (Max ((!) cl ` {i - 19..i}))"
proof -
  have p: "{x. \<exists>j. i - 19 \<le> j \<and> j \<le> i \<and> c ! j = Some x} = (!) cl ` {i - 19..i}"
    unfolding cc using i by (rule present_all)
  have ne: "(!) cl ` {i - 19..i} \<noteq> {}"
    by simp
  have "i < length c"
    using i by (simp add: cc)
  with gen have "sp ! i = (if {x. \<exists>j. i - 19 \<le> j \<and> j \<le> i \<and> c ! j = Some x} = {} then None
                            else Some (Min {x. \<exists>j. i - 19 \<le> j \<and> j \<le> i \<and> c ! j = Some x}))
               \<and> rs ! i = (if {x. \<exists>j. i - 19 \<le> j \<and> j \<le> i \<and> c ! j = Some x} = {} then None
                            else Some (Max {x. \<exists>j. i - 19 \<le> j \<and> j \<le> i \<and> c ! j = Some x}))"
    by blast
  then show ?thesis
    unfolding p using ne by (simp only: if_False)
qed

lemma map_Some_eq: "map Some cl = map Some xs \<Longrightarrow> cl = xs"
  by (simp add: inj_map_eq_map)

lemma setitem_rolling:
  assumes "has_close df c"
  shows "setitem df k (Some (rolling f w mp (zip (index df) c))) =
         Inr (set_column df k (map (\<lambda>i. agg f mp (window w c i)) [0..<length c]))"
proof -
  have len: "length c = length (index df)"
    using assms by (simp add: has_close_def)
  then show ?thesis
    by (simp add: setitem_def rolling_def)
qed

lemma frame_of_bars_close: "has_close (frame_of_bars bars) (map bclose bars)"
  by (simp add: has_close_def frame_of_bars_def)

lemma support_step_eq:
  assumes "has_close df c"
  shows "support_step df = ([], Inr (set_column df (KStr ''Support'')
           (map (\<lambda>i. agg min 1 (window 20 c i)) [0..<length c])))"
  unfolding support_step_def rolling_min_def getitem_close [OF assms]
  by (simp only: bind_lift_Inr setitem_rolling [OF assms]) (simp only: lift_def)

lemma resistance_step_eq:
  assumes "has_close df c"
  shows "resistance_step df = ([], Inr (set_column df (KStr ''Resistance'')
           (map (\<lambda>i. agg max 1 (window 20 c i)) [0..<length c])))"
  unfolding resistance_step_def rolling_max_def getitem_close [OF assms]
  by (simp only: bind_lift_Inr setitem_rolling [OF assms]) (simp only: lift_def)

lemma pipeline_nonempty:
  assumes "ticker_history yf symbol period interval = Inr bars" and "bars \<noteq> []"
    and "get_price_history yf ta symbol period interval = (lg, Inr r)"
  obtains l1 l2 l3 l4 l5 df1 df2 df3 df4 df5 where
    "rsi_step ta (frame_of_bars bars) = (l1, Inr df1)"
    "macd_step ta symbol df1 = (l2, Inr df2)"
    "bbands_step ta symbol df2 = (l3, Inr df3)"
    "support_step df3 = (l4, Inr df4)"
    "resistance_step df4 = (l5, Inr df5)"
    "r = Markdown df5"
proof -
  have ne: "\<not> df_empty (frame_of_bars bars)"
    using assms(2) by (simp add: df_empty_def frame_of_bars_def)
  have "bind (rsi_step ta (frame_of_bars bars)) (\<lambda>df.
         bind (macd_step ta symbol df) (\<lambda>df.
         bind (bbands_step ta symbol df) (\<lambda>df.
         bind (support_step df) (\<lambda>df.
         bind (resistance_step df) (\<lambda>df.
         bind (logger_info [Lit (''Retrieved price history for '' @ symbol @ '' with period=''
                                 @ period @ '', interval='' @ interval)])
           (\<lambda>_. ret (Markdown df))))))) = (lg, Inr r)"
    using assms(3) unfolding get_price_history_def assms(1)
    by (simp only: bind_lift_Inr Let_def ne if_False)
  then show ?thesis
    by (elim bind_InrE) (rule that, assumption+, simp add: ret_eq)
qed

subsection \<open>The rows through the steps of get_price_history\<close>

lemma keeps_bars_refl: "keeps_bars bars (frame_of_bars bars)"
  by (simp add: keeps_bars_def)

lemma keeps_bars_close: "keeps_bars bars df \<Longrightarrow> has_close df (map bclose bars)"
  by (simp add: keeps_bars_def has_close_def frame_of_bars_def)

lemma keeps_bars_set_column:
  "k \<notin> fst ` set (columns (frame_of_bars bars)) \<Longrightarrow> keeps_bars bars df \<Longrightarrow>
   keeps_bars bars (set_column df k vs)"
  by (auto simp: keeps_bars_def map_of_set_column index_set_column)

lemma join_aligned:
  assumes "join df other = Inr df'" and "distinct (index other)"
  shows "index df' = index df"
    and "map_of (columns df) k = Some c \<Longrightarrow> length c = length (index df) \<Longrightarrow>
         map_of (columns df') k = Some c"
proof -
  define ix where "ix = join_indexer 0 (index df) (index other)"
  have df': "df' = \<lparr>index = take_left ix (index df),
             columns = map (\<lambda>(k, c). (k, take_left ix c)) (columns df)
                     @ map (\<lambda>(k, c). (k, take_right ix c)) (columns other)\<rparr>"
    using assms(1) by (auto simp: join_def ix_def Let_def split: if_splits)
  have ix: "map fst ix = [0..<length (index df)]"
    using join_indexer_distinct [OF assms(2), of 0 "index df"] by (simp add: ix_def)
  show "index df' = index df"
    using ix by (simp add: df' take_left_all)
  show "map_of (columns df') k = Some c"
    if "map_of (columns df) k = Some c" "length c = length (index df)"
    using that ix by (simp add: df' map_of_map map_add_def take_left_all)
qed

lemma keeps_bars_join:
  assumes "join df other = Inr df'" and "distinct (index other)" and "keeps_bars bars df"
  shows "keeps_bars bars df'"
proof -
  have "map_of (columns df') k = map_of (columns (frame_of_bars bars)) k"
    if k: "k \<in> fst ` set (columns (frame_of_bars bars))" for k
  proof -
    from k obtain c where c: "map_of (columns (frame_of_bars bars)) k = Some c"
        "length c = length (index (frame_of_bars bars))"
      by (auto simp: frame_of_bars_def)
    with assms(3) k have "map_of (columns df) k = Some c" "length c = length (index df)"
      unfolding keeps_bars_def by auto
    then show ?thesis
      using join_aligned(2) [OF assms(1,2)] c(1) by simp
  qed
  moreover have "index df' = index (frame_of_bars bars)"
    using join_aligned(1) [OF assms(1,2)] assms(3) by (simp add: keeps_bars_def)
  ultimately show ?thesis
    by (simp add: keeps_bars_def)
qed

lemma join_or_warn_rows:
  assumes "(case m of Some mf \<Rightarrow> lift (join df mf)
            | None \<Rightarrow> bind (logger_warning msg) (\<lambda>_. ret df)) = (l, Inr df')"
    and "keeps_bars bars df"
    and "\<And>mf. m = Some mf \<Longrightarrow> distinct (index mf)"
  shows "keeps_bars bars df'"
proof (cases m)
  case None
  with assms(1) have "df' = df"
    by (auto elim!: bind_InrE simp: ret_eq)
  with assms(2) show ?thesis by simp
next
  case (Some mf)
  with assms(1) have "join df mf = Inr df'"
    by (simp add: lift_eq)
  then show ?thesis
    using assms(3) [OF Some] assms(2) by (rule keeps_bars_join)
qed

lemma indicator_step_rows:
  assumes "bind (lift (getitem df ''Close'')) (\<lambda>close.
           bind (lift (ind close)) (\<lambda>m.
             case m of Some mf \<Rightarrow> lift (join df mf)
             | None \<Rightarrow> bind (logger_warning msg) (\<lambda>_. ret df))) = (l, Inr df')"
    and "keeps_bars bars df" and "distinct_tables (index (frame_of_bars bars)) ind"
  shows "keeps_bars bars df'"
proof -
  let ?s = "zip (index df) (map bclose bars)"
  have g: "getitem df ''Close'' = Inr ?s"
    using keeps_bars_close [OF assms(2)] by (rule getitem_close)
  have idx: "map fst ?s = index (frame_of_bars bars)"
    using assms(2) by (simp add: keeps_bars_def frame_of_bars_def)
  from assms(1) obtain m l' where m: "ind ?s = Inr m"
    "(case m of Some mf \<Rightarrow> lift (join df mf)
            | None \<Rightarrow> bind (logger_warning msg) (\<lambda>_. ret df)) = (l', Inr df')"
    unfolding g bind_lift_Inr by (elim bind_InrE) (simp add: lift_eq)
  have "distinct (index mf)" if "m = Some mf" for mf
    using assms(3) m(1) that idx unfolding distinct_tables_def by blast
  with m(2) assms(2) show ?thesis
    by (rule join_or_warn_rows)
qed

lemma rsi_rows:
  assumes "rsi_step ta df = (l, Inr df')" and "keeps_bars bars df"
  shows "keeps_bars bars df'"
proof -
  from assms(1) obtain r where "setitem df (KStr ''RSI'') r = Inr df'"
    unfolding rsi_step_def by (auto elim!: bind_InrE simp: lift_eq)
  then obtain vs where "df' = set_column df (KStr ''RSI'') vs"
    using setitem_shape by blast
  with assms(2) show ?thesis
    by (simp add: keeps_bars_set_column frame_of_bars_def)
qed

subsection \<open>Dicts\<close>

lemma set_update_subset: "set (AList.update k v al) \<subseteq> insert (k, v) (set al)"
  by (induction al) auto

lemma update_fresh: "k \<notin> fst ` set al \<Longrightarrow> AList.update k v al = al @ [(k, v)]"
  by (induction al) auto

lemma foldl_update_keys:
  "fst ` set (foldl (\<lambda>d (k, v). AList.update k v d) acc items) = fst ` set acc \<union> fst ` set items"
proof (induction items arbitrary: acc)
  case Nil
  then show ?case by simp
next
  case (Cons x xs)
  obtain k v where x: "x = (k, v)" by (cases x)
  have "fst ` set (foldl (\<lambda>d (k, v). AList.update k v d) (AList.update k v acc) xs) =
        fst ` set (AList.update k v acc) \<union> fst ` set xs"
    by (rule Cons.IH)
  then show ?case
    unfolding dom_update by (simp add: x Un_assoc)
qed

lemma foldl_update_entries:
  "p \<in> set (foldl (\<lambda>d (k, v). AList.update k v d) acc items) \<Longrightarrow> p \<in> set acc \<or> p \<in> set items"
proof (induction items arbitrary: acc)
  case Nil
  then show ?case by simp
next
  case (Cons x xs)
  obtain k v where x: "x = (k, v)" by (cases x)
  from Cons.prems have "p \<in> set (foldl (\<lambda>d (k, v). AList.update k v d) (AList.update k v acc) xs)"
    by (simp add: x)
  then have "p \<in> set (AList.update k v acc) \<or> p \<in> set xs"
    by (rule Cons.IH)
  then show ?case
    using set_update_subset [of k v acc] by (auto simp: x)
qed

lemma foldl_update_distinct:
  "distinct (map fst items) \<Longrightarrow> fst ` set acc \<inter> fst ` set items = {} \<Longrightarrow>
   foldl (\<lambda>d (k, v). AList.update k v d) acc items = acc @ items"
proof (induction items arbitrary: acc)
  case Nil
  then show ?case by simp
next
  case (Cons x xs)
  obtain k v where x: "x = (k, v)" by (cases x)
  have fresh: "k \<notin> fst ` set acc"
    using Cons.prems(2) by (auto simp: x)
  have "foldl (\<lambda>d (k, v). AList.update k v d) (acc @ [(k, v)]) xs = (acc @ [(k, v)]) @ xs"
  proof (rule Cons.IH)
    show "distinct (map fst xs)"
      using Cons.prems(1) by simp
    show "fst ` set (acc @ [(k, v)]) \<inter> fst ` set xs = {}"
      using Cons.prems by (auto simp: x)
  qed
  then show ?case
    by (simp add: x update_fresh [OF fresh])
qed

lemma dict_of_keys: "fst ` set (dict_of items) = fst ` set items"
  by (simp add: dict_of_def foldl_update_keys)

lemma dict_of_entries: "p \<in> set (dict_of items) \<Longrightarrow> p \<in> set items"
  using foldl_update_entries [of p "[]" items] by (simp add: dict_of_def)

lemma dict_of_distinct: "distinct (map fst items) \<Longrightarrow> dict_of items = items"
  using foldl_update_distinct [of items "[]"] by (simp add: dict_of_def)

lemma str_keys_outer_ok:
  assumes "\<forall>p \<in> set d. \<exists>inner. snd p = PDict inner"
  shows "\<exists>r. str_keys_outer fmt acc d = Inr r
           \<and> fst ` set r = fst ` set acc \<union> (\<lambda>k. KStr (str_key fmt k)) ` fst ` set d
           \<and> (\<forall>p \<in> set r. p \<in> set acc \<or>
                 (\<exists>k inner. (k, PDict inner) \<in> set d \<and> p = (KStr (str_key fmt k), PDict (str_keys fmt inner))))"
  using assms
proof (induction d arbitrary: acc)
  case Nil
  then show ?case by simp
next
  case (Cons x xs)
  obtain k v where x: "x = (k, v)" by (cases x)
  obtain inner where v: "v = PDict inner"
    using Cons.prems by (auto simp: x)
  let ?acc = "AList.update (KStr (str_key fmt k)) (PDict (str_keys fmt inner)) acc"
  from Cons.prems have "\<forall>p \<in> set xs. \<exists>inner. snd p = PDict inner"
    by simp
  from Cons.IH [OF this, of ?acc] obtain r where r: "str_keys_outer fmt ?acc xs = Inr r"
    "fst ` set r = fst ` set ?acc \<union> (\<lambda>k. KStr (str_key fmt k)) ` fst ` set xs"
    "\<forall>p \<in> set r. p \<in> set ?acc \<or>
        (\<exists>k inner. (k, PDict inner) \<in> set xs \<and> p = (KStr (str_key fmt k), PDict (str_keys fmt inner)))"
    by blast
  have "str_keys_outer fmt acc (x # xs) = Inr r"
    by (simp add: x v r(1))
  moreover have "fst ` set r = fst ` set acc \<union> (\<lambda>k. KStr (str_key fmt k)) ` fst ` set (x # xs)"
    by (auto simp: r(2) dom_update x)
  moreover have "\<forall>p \<in> set r. p \<in> set acc \<or>
        (\<exists>k inner. (k, PDict inner) \<in> set (x # xs) \<and> p = (KStr (str_key fmt k), PDict (str_keys fmt inner)))"
  proof
    fix p assume "p \<in> set r"
    with r(3) consider "p \<in> set ?acc"
      | "\<exists>k inner. (k, PDict inner) \<in> set xs \<and> p = (KStr (str_key fmt k), PDict (str_keys fmt inner))"
      by blast
    then show "p \<in> set acc \<or>
        (\<exists>k inner. (k, PDict inner) \<in> set (x # xs) \<and> p = (KStr (str_key fmt k), PDict (str_keys fmt inner)))"
    proof cases
      case 1
      then have "p = (KStr (str_key fmt k), PDict (str_keys fmt inner)) \<or> p \<in> set acc"
        using set_update_subset [of "KStr (str_key fmt k)" "PDict (str_keys fmt inner)" acc] by auto
      then show ?thesis
        by (auto simp: x v)
    next
      case 2
      then show ?thesis by auto
    qed
  qed
  ultimately show ?case by blast
qed

lemma to_dict_shape:
  "\<exists>d. to_dict f = PDict d \<and> fst ` set d = fst ` set (columns f)
       \<and> (\<forall>p \<in> set d. \<exists>col. (fst p, col) \<in> set (columns f) \<and> snd p = PDict (dict_of (zip (index f) col)))"
proof -
  let ?items = "map (\<lambda>(k, c). (k, PDict (dict_of (zip (index f) c)))) (columns f)"
  have "fst ` set (dict_of ?items) = fst ` set (columns f)"
    by (force simp: dict_of_keys)
  moreover have "\<exists>col. (fst p, col) \<in> set (columns f) \<and> snd p = PDict (dict_of (zip (index f) col))"
    if "p \<in> set (dict_of ?items)" for p
    using dict_of_entries [OF that] by auto
  ultimately show ?thesis
    unfolding to_dict_def by blast
qed

lemma str_keys_entries:
  "(kk, vv) \<in> set (str_keys fmt inner) \<Longrightarrow> \<exists>i. (i, vv) \<in> set inner \<and> kk = KStr (str_key fmt i)"
  unfolding str_keys_def by (drule dict_of_entries) auto

lemma foldl_update_distinct_keys:
  "distinct (map fst acc) \<Longrightarrow> distinct (map fst (foldl (\<lambda>d (k, v). AList.update k v d) acc items))"
proof (induction items arbitrary: acc)
  case Nil
  then show ?case by simp
next
  case (Cons x xs)
  obtain k v where x: "x = (k, v)" by (cases x)
  have "distinct (map fst (AList.update k v acc))"
    using Cons.prems by (rule distinct_update)
  then have "distinct (map fst (foldl (\<lambda>d (k, v). AList.update k v d) (AList.update k v acc) xs))"
    by (rule Cons.IH)
  then show ?case
    by (simp add: x)
qed

lemma dict_of_distinct_keys: "distinct (map fst (dict_of items))"
  using foldl_update_distinct_keys [of "[]" items] by (simp add: dict_of_def)

lemma str_keys_outer_distinct_keys:
  "str_keys_outer fmt acc d = Inr r \<Longrightarrow> distinct (map fst acc) \<Longrightarrow> distinct (map fst r)"
proof (induction d arbitrary: acc)
  case Nil
  then show ?case by simp
next
  case (Cons x xs)
  obtain k v where x: "x = (k, v)" by (cases x)
  from Cons.prems(1) obtain inner where v: "v = PDict inner"
    by (cases v) (simp_all add: x)
  let ?acc = "AList.update (KStr (str_key fmt k)) (PDict (str_keys fmt inner)) acc"
  have "str_keys_outer fmt ?acc xs = Inr r"
    using Cons.prems(1) by (simp add: x v)
  moreover have "distinct (map fst ?acc)"
    using Cons.prems(2) by (rule distinct_update)
  ultimately show ?case
    by (rule Cons.IH)
qed

lemma str_keys_outer_exact:
  "distinct (map (\<lambda>p. str_key fmt (fst p)) d) \<Longrightarrow>
   (\<lambda>c. KStr (str_key fmt c)) ` fst ` set d \<inter> fst ` set acc = {} \<Longrightarrow>
   str_keys_outer fmt acc (map (\<lambda>(c, inner). (c, PDict inner)) d) =
     Inr (acc @ map (\<lambda>(c, inner). (KStr (str_key fmt c), PDict (str_keys fmt inner))) d)"
proof (induction d arbitrary: acc)
  case Nil
  then show ?case by simp
next
  case (Cons x xs)
  obtain c inner where x: "x = (c, inner)" by (cases x)
  let ?e = "(KStr (str_key fmt c), PDict (str_keys fmt inner))"
  have fresh: "KStr (str_key fmt c) \<notin> fst ` set acc"
    using Cons.prems(2) by (auto simp: x)
  have "str_keys_outer fmt (acc @ [?e]) (map (\<lambda>(c, inner). (c, PDict inner)) xs) =
     Inr ((acc @ [?e]) @ map (\<lambda>(c, inner). (KStr (str_key fmt c), PDict (str_keys fmt inner))) xs)"
  proof (rule Cons.IH)
    show "distinct (map (\<lambda>p. str_key fmt (fst p)) xs)"
      using Cons.prems(1) by simp
    show "(\<lambda>c. KStr (str_key fmt c)) ` fst ` set xs \<inter> fst ` set (acc @ [?e]) = {}"
      using Cons.prems by (auto simp: x image_iff)
  qed
  then show ?case
    by (simp add: x update_fresh [OF fresh])
qed

lemma distinct_map_fst_zip: "distinct xs \<Longrightarrow> distinct (map fst (zip xs ys))"
  by (simp add: map_fst_zip_take)

lemma map_fst_str:
  "map fst (map (\<lambda>(i, v). (KStr (str_key fmt i), v)) zs) = map (\<lambda>i. KStr (str_key fmt i)) (map fst zs)"
  by (induction zs) auto

lemma keys_str:
  "fst ` set (map (\<lambda>(i, v). (KStr (str_key fmt i), v)) zs) = (\<lambda>i. KStr (str_key fmt i)) ` fst ` set zs"
  by (induction zs) auto

lemma distinct_under: "distinct (map (\<lambda>x. f (g x)) xs) \<Longrightarrow> distinct (map g xs)"
  by (induction xs) auto

lemma str_keys_exact:
  assumes "distinct (map (str_key fmt) ix)"
  shows "str_keys fmt (dict_of (zip ix col)) = map (\<lambda>(i, v). (KStr (str_key fmt i), v)) (zip ix col)"
proof -
  have d: "distinct ix"
    using assms by (rule distinct_under [of "str_key fmt" "\<lambda>x. x", simplified])
  have z: "dict_of (zip ix col) = zip ix col"
    using d by (intro dict_of_distinct distinct_map_fst_zip)
  have "distinct (map (\<lambda>i. KStr (str_key fmt i)) ix)"
    using assms by (auto simp: distinct_map inj_on_def)
  then have "distinct (take n (map (\<lambda>i. KStr (str_key fmt i)) ix))" for n
    by (rule distinct_take)
  then have "distinct (map fst (map (\<lambda>(i, v). (KStr (str_key fmt i), v)) (zip ix col)))"
    unfolding map_fst_str by (simp add: map_fst_zip_take take_map)
  then show ?thesis
    unfolding str_keys_def z by (rule dict_of_distinct)
qed

lemma df_to_dict_exact:
  assumes "distinct (map (str_key fmt) (index f))"
    and "distinct (map (\<lambda>p. str_key fmt (fst p)) (columns f))"
  shows "df_to_dict_str_keys fmt (Some f) = Inr (PDict
           (map (\<lambda>(c, col). (KStr (str_key fmt c),
                  PDict (map (\<lambda>(i, v). (KStr (str_key fmt i), v)) (zip (index f) col))))
                (columns f)))"
proof -
  let ?d = "map (\<lambda>(c, col). (c, dict_of (zip (index f) col))) (columns f)"
  have "distinct (map fst (columns f))"
    using assms(2) by (rule distinct_under)
  then have "distinct (map fst (map (\<lambda>(k, c). (k, PDict (dict_of (zip (index f) c)))) (columns f)))"
    by (simp add: comp_def case_prod_unfold)
  then have t: "to_dict f = PDict (map (\<lambda>(c, inner). (c, PDict inner)) ?d)"
    unfolding to_dict_def by (simp add: dict_of_distinct comp_def case_prod_unfold)
  have "distinct (map (\<lambda>p. str_key fmt (fst p)) ?d)"
    using assms(2) by (simp add: comp_def case_prod_unfold)
  then have "str_keys_outer fmt [] (map (\<lambda>(c, inner). (c, PDict inner)) ?d) =
     Inr ([] @ map (\<lambda>(c, inner). (KStr (str_key fmt c), PDict (str_keys fmt inner))) ?d)"
    by (rule str_keys_outer_exact) simp
  then have "df_to_dict_str_keys fmt (Some f) =
     Inr (PDict (map (\<lambda>(c, inner). (KStr (str_key fmt c), PDict (str_keys fmt inner))) ?d))"
    by (simp add: df_to_dict_str_keys_def t)
  then show ?thesis
    by (simp add: comp_def case_prod_unfold str_keys_exact [OF assms(1)])
qed

lemma str_keys_shape:
  "distinct (map fst (str_keys fmt (dict_of items)))
   \<and> fst ` set (str_keys fmt (dict_of items)) = (\<lambda>i. KStr (str_key fmt i)) ` fst ` set items
   \<and> (\<forall>kk vv. (kk, vv) \<in> set (str_keys fmt (dict_of items)) \<longrightarrow>
         (\<exists>i. (i, vv) \<in> set items \<and> kk = KStr (str_key fmt i)))"
proof (intro conjI allI impI)
  show "distinct (map fst (str_keys fmt (dict_of items)))"
    unfolding str_keys_def by (rule dict_of_distinct_keys)
  have "fst ` set (str_keys fmt (dict_of items)) = (\<lambda>i. KStr (str_key fmt i)) ` fst ` set (dict_of items)"
    unfolding str_keys_def dict_of_keys keys_str ..
  then show "fst ` set (str_keys fmt (dict_of items)) = (\<lambda>i. KStr (str_key fmt i)) ` fst ` set items"
    unfolding dict_of_keys .
next
  fix kk vv
  assume "(kk, vv) \<in> set (str_keys fmt (dict_of items))"
  then obtain i where "(i, vv) \<in> set (dict_of items)" "kk = KStr (str_key fmt i)"
    using str_keys_entries by blast
  then show "\<exists>i. (i, vv) \<in> set items \<and> kk = KStr (str_key fmt i)"
    using dict_of_entries by blast
qed

lemma present_unless_collision:
  assumes keys: "fst ` set inner = (\<lambda>i. KStr (str_key fmt i)) ` fst ` set items"
    and prov: "\<forall>kk vv. (kk, vv) \<in> set inner \<longrightarrow> (\<exists>i. (i, vv) \<in> set items \<and> kk = KStr (str_key fmt i))"
    and iv: "(i, v) \<in> set items"
    and same: "\<forall>i' v'. (i', v') \<in> set items \<longrightarrow> str_key fmt i' = str_key fmt i \<longrightarrow> v' = v"
  shows "(KStr (str_key fmt i), v) \<in> set inner"
proof -
  have "KStr (str_key fmt i) \<in> fst ` set inner"
    unfolding keys using iv by force
  then obtain vv where vv: "(KStr (str_key fmt i), vv) \<in> set inner"
    by auto
  with prov obtain i' where "(i', vv) \<in> set items" "KStr (str_key fmt i) = KStr (str_key fmt i')"
    by blast
  with same have "vv = v"
    by simp
  with vv show ?thesis by simp
qed

subsection \<open>News, groups and runs of the examples\<close>

lemma logger_info_eq: "logger_info msg = (l, r) \<longleftrightarrow> l = [Log INFO msg] \<and> r = Inr ()"
  by (auto simp: logger_info_def)

lemma bind_logger_info: "bind (logger_info msg) f = (case f () of (l, r) \<Rightarrow> (Log INFO msg # l, r))"
  by (simp add: bind_def logger_info_def)

lemma bind_ret: "bind (ret x) f = f x"
  by (simp add: bind_def ret_def split: prod.splits)

lemma simplify_item_triple:
  "content_is_dict item \<Longrightarrow> simplify_item item = Inr (news_triple item)"
  by (cases item)
     (auto simp: content_is_dict_def news_triple_def dict_of_distinct dict_get_default_def
           split: option.splits py.splits)

lemma simplify_news_triples:
  "\<forall>item \<in> set news. content_is_dict item \<Longrightarrow>
   simplify_news acc news = Inr (acc @ List.map_filter news_triple news)"
proof (induction news arbitrary: acc)
  case Nil
  then show ?case by (simp add: List.map_filter_simps)
next
  case (Cons item rest)
  then show ?case
    by (cases "news_triple item") (simp_all add: simplify_item_triple List.map_filter_simps)
qed

lemma pick_attrs: "distinct ks \<Longrightarrow> pick d ks = attrs d ks"
  by (simp add: pick_def attrs_def dict_of_distinct distinct_map comp_def inj_on_def)

lemma keys_distinct:
  "distinct etf_analysis_keys" "distinct etf_trading_keys" "distinct etf_price_movement_keys"
  "distinct etf_fund_info_keys" "distinct core_valuation_keys" "distinct financial_performance_keys"
  "distinct financial_health_keys" "distinct market_data_keys" "distinct dividend_info_keys"
  "distinct balance_sheet_essentials" "distinct income_stmt_items" "distinct cash_flow_highlights"
  by (simp_all add: etf_analysis_keys_def etf_trading_keys_def etf_price_movement_keys_def
        etf_fund_info_keys_def core_valuation_keys_def financial_performance_keys_def
        financial_health_keys_def market_data_keys_def dividend_info_keys_def
        balance_sheet_essentials_def income_stmt_items_def cash_flow_highlights_def)

lemma etf_response_eq:
  "etf_response info stock_news =
     PDumps (PDict
       [(KStr ''stock_type'', PStr ''ETF''),
        (KStr ''etf_analysis'', attrs info etf_analysis_keys),
        (KStr ''trading_valuation'', attrs info etf_trading_keys),
        (KStr ''price_movement'', attrs info etf_price_movement_keys),
        (KStr ''fund_information'', attrs info etf_fund_info_keys),
        (KStr ''stock_news'', stock_news)])"
  unfolding etf_response_def by (simp add: dict_of_distinct pick_attrs keys_distinct)

lemma essentials_shape:
  "essentials statement ks = Inr v \<Longrightarrow> distinct ks \<Longrightarrow> v = PDict [] \<or> (\<exists>d. statement = PDict d \<and> v = attrs d ks)"
  by (auto simp: essentials_def pick_attrs split: if_splits py.splits)

lemma equity_response_eq:
  assumes "equity_response info bs fin cf apt stock_news = Inr response"
  shows "\<exists>b i c. essentials bs balance_sheet_essentials = Inr b
           \<and> essentials fin income_stmt_items = Inr i
           \<and> essentials cf cash_flow_highlights = Inr c
           \<and> response = PDumps (PDict
            [(KStr ''stock_type'', PStr ''EQUITY''),
             (KStr ''core_valuation_metrics'', attrs info core_valuation_keys),
             (KStr ''financial_performance'', attrs info financial_performance_keys),
             (KStr ''financial_health'', attrs info financial_health_keys),
             (KStr ''market_data_trading'', attrs info market_data_keys),
             (KStr ''dividend_information'', attrs info dividend_info_keys),
             (KStr ''balance_sheet_essentials'', b),
             (KStr ''income_statement_key_items'', i),
             (KStr ''cash_flow_highlights'', c),
             (KStr ''analyst_price_targets'', apt),
             (KStr ''stock_news'', stock_news)])"
  using assms unfolding equity_response_def
  by (auto simp: dict_of_distinct pick_attrs keys_distinct split: sum.splits)

lemma get_stock_info_shape:
  assumes "resolve_info yf symbol0 = (l0, Inr (Inr (info, symbol)))"
    and "get_stock_info yf fmt symbol0 = (lg, Inr response)"
  shows "if dict_get info (KStr ''quoteType'') = PStr ''ETF''
         then \<exists>stock_news. response = etf_response info stock_news
         else \<exists>bs fin cf apt stock_news.
                equity_response info bs fin cf apt stock_news = Inr response"
proof (cases "dict_get info (KStr ''quoteType'') = PStr ''ETF''")
  case True
  have "\<exists>stock_news. response = etf_response info stock_news"
    using assms(2) unfolding get_stock_info_def assms(1)
    by (elim bind_InrE) (auto simp: True bind_ret ret_eq lift_eq Let_def elim!: bind_InrE)
  with True show ?thesis by simp
next
  case False
  have "\<exists>bs fin cf apt stock_news. equity_response info bs fin cf apt stock_news = Inr response"
    using assms(2) unfolding get_stock_info_def assms(1)
    apply (elim bind_InrE)
    apply (auto simp: False bind_ret ret_eq lift_eq Let_def elim!: bind_InrE)
    apply blast
    done
  with False show ?thesis by simp
qed

lemma week_run:
  "get_price_history yf_week ta_short ''AAPL'' ''1wk'' ''1d'' = (week_log, Inr (Markdown week_table))"
  by code_simp

lemma week_history: "ticker_history yf_week ''AAPL'' ''1wk'' ''1d'' = Inr bars5"
  by (simp add: yf_week_def no_provider_def)

lemma bars5_nonempty: "bars5 \<noteq> []"
  by (simp add: bars5_def)

lemma bind_Inl: "m = (l, Inl e) \<Longrightarrow> bind m f = (l, Inl e)"
  by (simp add: bind_def)

lemma bind_Inr_Inl: "m = (l, Inr x) \<Longrightarrow> f x = (l', Inl e) \<Longrightarrow> bind m f = (l @ l', Inl e)"
  by (simp add: bind_def)

lemma price_history_steps:
  assumes "ticker_history yf symbol period interval = Inr bars" and "bars \<noteq> []"
  shows "get_price_history yf ta symbol period interval =
         bind (rsi_step ta (frame_of_bars bars)) (\<lambda>df.
         bind (macd_step ta symbol df) (\<lambda>df.
         bind (bbands_step ta symbol df) (\<lambda>df.
         bind (support_step df) (\<lambda>df.
         bind (resistance_step df) (\<lambda>df.
         bind (logger_info [Lit (''Retrieved price history for '' @ symbol @ '' with period=''
                                 @ period @ '', interval='' @ interval)])
           (\<lambda>_. ret (Markdown df)))))))"
proof -
  have ne: "\<not> df_empty (frame_of_bars bars)"
    using assms(2) by (simp add: df_empty_def frame_of_bars_def)
  show ?thesis
    unfolding get_price_history_def assms(1)
    by (simp only: bind_lift_Inr Let_def ne if_False)
qed

lemma indicator_raises:
  assumes "getitem df ''Close'' = Inr s" and "ind s = Inl e"
  shows "bind (lift (getitem df ''Close'')) (\<lambda>close. bind (lift (ind close)) f) = ([], Inl e)"
  unfolding assms(1) bind_lift_Inr assms(2) by (rule bind_lift_Inl)

lemma join_or_warn_None:
  assumes "getitem df ''Close'' = Inr s" and "ind s = Inr None"
  shows "bind (lift (getitem df ''Close'')) (\<lambda>close. bind (lift (ind close)) (\<lambda>m.
     case m of Some mf \<Rightarrow> lift (join df mf)
     | None \<Rightarrow> bind (logger_warning msg) (\<lambda>_. ret df))) = ([Log WARNING msg], Inr df)"
  unfolding assms(1) bind_lift_Inr assms(2)
  by (simp add: bind_def logger_warning_def ret_def)

lemma distinct_short: "length xs \<le> 1 \<Longrightarrow> distinct (map f xs)"
  by (cases xs) auto

lemma distinct_last: "distinct (map fst (drop (length s - 1) s))"
  by (rule distinct_short) simp

section \<open>The claims\<close>

subsection \<open>C1: an indicator that cannot be computed\<close>

text \<open>
  C1 says that an indicator whose minimum length the series does not reach is left out of
  the table and a warning is logged, and that for a series of five rows the RSI column is
  absent. MACD and the Bollinger Bands are joined under \<open>if ... is not None\<close>, with a
  warning otherwise; the RSI is assigned without that test. For the week of five days,
  where the library returns \<open>None\<close> for the RSI and for MACD: the table has an RSI
  column, missing in all five rows, the only warning is the one for MACD, and Support and
  Resistance have a value in every row.
\<close>

theorem rsi_column_present_on_short_series:
  "ta_rsi ta_short (zip (map (\<lambda>b. KTime (ts b)) bars5) (map bclose bars5)) = Inr None
   \<and> get_price_history yf_week ta_short ''AAPL'' ''1wk'' ''1d'' =
     ([Log WARNING [Lit ''MACD could not be calculated for AAPL (possibly not enough data)''],
       Log INFO [Lit ''Retrieved price history for AAPL with period=1wk, interval=1d'']],
      Inr (Markdown
        \<lparr>index = [KTime 1, KTime 2, KTime 3, KTime 4, KTime 5],
         columns =
           [(KStr ''Open'', [Some 10, Some 11, Some 12, Some 9, Some 13]),
            (KStr ''High'', [Some 12, Some 13, Some 12, Some 14, Some 13]),
            (KStr ''Low'', [Some 9, Some 10, Some 8, Some 9, Some 10]),
            (KStr ''Close'', [Some 11, Some 12, Some 9, Some 13, Some 10]),
            (KStr ''Volume'', [Some 100, Some 120, Some 90, Some 150, Some 80]),
            (KStr ''RSI'', [None, None, None, None, None]),
            (KStr ''BBM_5_2.0'', [None, None, None, None, Some 11]),
            (KStr ''Support'', [Some 11, Some 11, Some 9, Some 9, Some 9]),
            (KStr ''Resistance'', [Some 11, Some 12, Some 12, Some 13, Some 13])]\<rparr>))"
  by code_simp

subsection \<open>C2: exceptions of the indicator library\<close>

text \<open>
  C2 says that no exception of an indicator computation leaves \<open>get_price_history\<close>.
  The function has no exception handler. With a library whose MACD computation raises,
  the call raises that exception and returns no table.
\<close>

theorem macd_exception_propagates:
  "get_price_history yf_week ta_macd_raises ''AAPL'' ''1wk'' ''1d'' =
     ([], Inl (ProviderError ''macd failed''))"
  by code_simp

text \<open>
  C2 as amended, for every fetched series that is not empty. The exception that an
  indicator computation raises on the Close series it is given is the exception that
  leaves \<open>get_price_history\<close>, and no table is returned: for the RSI on the fetched
  table, for MACD on the table the RSI step has made, for the Bollinger Bands on the
  table the MACD step has made; the log is the log of the steps before. A MACD or
  Bollinger result of \<open>None\<close> is logged as a warning and leaves the table as it is, for the
  next step to run on it.
\<close>

theorem indicator_exception_propagates_none_omitted:
  assumes "ticker_history yf symbol period interval = Inr bars" and "bars \<noteq> []"
  shows "(\<forall>s e. getitem (frame_of_bars bars) ''Close'' = Inr s \<longrightarrow> ta_rsi ta s = Inl e \<longrightarrow>
            get_price_history yf ta symbol period interval = ([], Inl e))
       \<and> (\<forall>l1 df1 s e. rsi_step ta (frame_of_bars bars) = (l1, Inr df1) \<longrightarrow>
            getitem df1 ''Close'' = Inr s \<longrightarrow> ta_macd ta s = Inl e \<longrightarrow>
            get_price_history yf ta symbol period interval = (l1, Inl e))
       \<and> (\<forall>l1 df1 l2 df2 s e. rsi_step ta (frame_of_bars bars) = (l1, Inr df1) \<longrightarrow>
            macd_step ta symbol df1 = (l2, Inr df2) \<longrightarrow>
            getitem df2 ''Close'' = Inr s \<longrightarrow> ta_bbands ta s = Inl e \<longrightarrow>
            get_price_history yf ta symbol period interval = (l1 @ l2, Inl e))
       \<and> (\<forall>df s. getitem df ''Close'' = Inr s \<longrightarrow> ta_macd ta s = Inr None \<longrightarrow>
            macd_step ta symbol df =
              ([Log WARNING [Lit (''MACD could not be calculated for '' @ symbol
                                  @ '' (possibly not enough data)'')]], Inr df))
       \<and> (\<forall>df s. getitem df ''Close'' = Inr s \<longrightarrow> ta_bbands ta s = Inr None \<longrightarrow>
            bbands_step ta symbol df =
              ([Log WARNING [Lit (''Bollinger Bands could not be calculated for '' @ symbol
                                  @ '' (possibly not enough data)'')]], Inr df))"
proof (intro conjI allI impI)
  fix s e
  assume "getitem (frame_of_bars bars) ''Close'' = Inr s" "ta_rsi ta s = Inl e"
  then have "rsi_step ta (frame_of_bars bars) = ([], Inl e)"
    unfolding rsi_step_def by (rule indicator_raises)
  then show "get_price_history yf ta symbol period interval = ([], Inl e)"
    unfolding price_history_steps [OF assms] by (rule bind_Inl)
next
  fix l1 df1 s e
  assume r: "rsi_step ta (frame_of_bars bars) = (l1, Inr df1)"
    and "getitem df1 ''Close'' = Inr s" "ta_macd ta s = Inl e"
  then have "macd_step ta symbol df1 = ([], Inl e)"
    unfolding macd_step_def by (intro indicator_raises)
  then have "bind (macd_step ta symbol df1) f = ([], Inl e)" for f :: "cell frame \<Rightarrow> cell frame response result"
    by (rule bind_Inl)
  with r show "get_price_history yf ta symbol period interval = (l1, Inl e)"
    unfolding price_history_steps [OF assms] by (simp add: bind_def)
next
  fix l1 df1 l2 df2 s e
  assume r: "rsi_step ta (frame_of_bars bars) = (l1, Inr df1)"
    and m: "macd_step ta symbol df1 = (l2, Inr df2)"
    and "getitem df2 ''Close'' = Inr s" "ta_bbands ta s = Inl e"
  then have "bbands_step ta symbol df2 = ([], Inl e)"
    unfolding bbands_step_def by (intro indicator_raises)
  then have "bind (bbands_step ta symbol df2) f = ([], Inl e)" for f :: "cell frame \<Rightarrow> cell frame response result"
    by (rule bind_Inl)
  with r m show "get_price_history yf ta symbol period interval = (l1 @ l2, Inl e)"
    unfolding price_history_steps [OF assms] by (simp add: bind_def)
next
  fix df s
  assume "getitem df ''Close'' = Inr s" "ta_macd ta s = Inr None"
  then show "macd_step ta symbol df =
              ([Log WARNING [Lit (''MACD could not be calculated for '' @ symbol
                                  @ '' (possibly not enough data)'')]], Inr df)"
    unfolding macd_step_def by (rule join_or_warn_None)
next
  fix df s
  assume "getitem df ''Close'' = Inr s" "ta_bbands ta s = Inr None"
  then show "bbands_step ta symbol df =
              ([Log WARNING [Lit (''Bollinger Bands could not be calculated for '' @ symbol
                                  @ '' (possibly not enough data)'')]], Inr df)"
    unfolding bbands_step_def by (rule join_or_warn_None)
qed

theorem indicator_exception_propagates_none_omitted_witness:
  "get_price_history yf_week ta_macd_raises ''AAPL'' ''1wk'' ''1d'' =
     ([], Inl (ProviderError ''macd failed''))
   \<and> get_price_history yf_week ta_bbands_strict ''AAPL'' ''1wk'' ''1d'' =
     ([Log WARNING [Lit ''MACD could not be calculated for AAPL (possibly not enough data)'']],
      Inl (ValueError ''too short''))
   \<and> macd_step ta_short ''AAPL'' (frame_of_bars bars5) =
       ([Log WARNING [Lit ''MACD could not be calculated for AAPL (possibly not enough data)'']],
        Inr (frame_of_bars bars5))"
proof -
  let ?df1 = "set_column (frame_of_bars bars5) (KStr ''RSI'') (replicate 5 None)"
  let ?s = "zip (index (frame_of_bars bars5)) (map bclose bars5)"
  let ?w = "[Log WARNING [Lit ''MACD could not be calculated for AAPL (possibly not enough data)'']]"
  have r1: "rsi_step ta_macd_raises (frame_of_bars bars5) = ([], Inr ?df1)"
    by code_simp
  have r2: "rsi_step ta_bbands_strict (frame_of_bars bars5) = ([], Inr ?df1)"
    by code_simp
  have m2: "macd_step ta_bbands_strict ''AAPL'' ?df1 = (?w, Inr ?df1)"
    by code_simp
  have g1: "getitem ?df1 ''Close'' = Inr ?s"
    by code_simp
  have g0: "getitem (frame_of_bars bars5) ''Close'' = Inr ?s"
    using frame_of_bars_close by (rule getitem_close)
  have e1: "ta_macd ta_macd_raises ?s = Inl (ProviderError ''macd failed'')"
    by (simp add: ta_macd_raises_def)
  have e2: "ta_bbands ta_bbands_strict ?s = Inl (ValueError ''too short'')"
    by (simp add: ta_bbands_strict_def bars5_def frame_of_bars_def)
  have n: "ta_macd ta_short ?s = Inr None"
    by (simp add: ta_short_def bars5_def frame_of_bars_def)
  from indicator_exception_propagates_none_omitted [OF week_history bars5_nonempty, of ta_macd_raises]
    r1 g1 e1
  have "get_price_history yf_week ta_macd_raises ''AAPL'' ''1wk'' ''1d'' =
     ([], Inl (ProviderError ''macd failed''))"
    by blast
  moreover from indicator_exception_propagates_none_omitted [OF week_history bars5_nonempty, of ta_bbands_strict]
    r2 m2 g1 e2
  have "get_price_history yf_week ta_bbands_strict ''AAPL'' ''1wk'' ''1d'' = ([] @ ?w, Inl (ValueError ''too short''))"
    by blast
  moreover from indicator_exception_propagates_none_omitted [OF week_history bars5_nonempty, of ta_short]
    g0 n
  have "macd_step ta_short ''AAPL'' (frame_of_bars bars5) =
       ([Log WARNING [Lit (''MACD could not be calculated for '' @ ''AAPL''
                                  @ '' (possibly not enough data)'')]],
        Inr (frame_of_bars bars5))"
    by blast
  ultimately show ?thesis by simp
qed

subsection \<open>C3: the joins keep the rows\<close>

text \<open>
  C3 says that for every fetched series that is not empty the table has the rows of the
  series. The join is a left join on the row labels, and a row is returned once for each
  row of the indicator table that has its label. For the four bars with the timestamps
  3, 1, 3, 2 and a MACD table that has the labels of the series, the table has six rows:
  each of the two rows labelled 3 is there twice.
\<close>

theorem duplicate_timestamps_multiply_rows:
  "map ts bars_dup = [3, 1, 3, 2]
   \<and> answer_index (get_price_history yf_dup ta_echo ''AAPL'' ''1wk'' ''1d'') =
       Some [KTime 3, KTime 3, KTime 1, KTime 3, KTime 3, KTime 2]"
  by code_simp

text \<open>
  C3 as amended: when the MACD and Bollinger tables that the indicator library returns
  for a series with the labels of the fetched series have distinct row labels, then for
  every fetched series that is not empty the table that \<open>get_price_history\<close> returns has
  the rows of the series, also where an indicator table lacks some of the labels: the
  same number of rows, the same timestamps in the same order, and the five price columns
  as they were fetched.
\<close>

theorem join_preserves_rows:
  assumes "ticker_history yf symbol period interval = Inr bars" and "bars \<noteq> []"
    and "distinct_tables (map (\<lambda>b. KTime (ts b)) bars) (ta_macd ta)"
    and "distinct_tables (map (\<lambda>b. KTime (ts b)) bars) (ta_bbands ta)"
    and "get_price_history yf ta symbol period interval = (lg, Inr r)"
  shows "\<exists>t. r = Markdown t
           \<and> length (index t) = length bars
           \<and> index t = map (\<lambda>b. KTime (ts b)) bars
           \<and> map_of (columns t) (KStr ''Open'') = Some (map bopen bars)
           \<and> map_of (columns t) (KStr ''High'') = Some (map bhigh bars)
           \<and> map_of (columns t) (KStr ''Low'') = Some (map blow bars)
           \<and> map_of (columns t) (KStr ''Close'') = Some (map bclose bars)
           \<and> map_of (columns t) (KStr ''Volume'') = Some (map bvolume bars)"
proof -
  from assms(1,2,5) obtain l1 l2 l3 l4 l5 df1 df2 df3 df4 df5 where
    s1: "rsi_step ta (frame_of_bars bars) = (l1, Inr df1)" and
    s2: "macd_step ta symbol df1 = (l2, Inr df2)" and
    s3: "bbands_step ta symbol df2 = (l3, Inr df3)" and
    s4: "support_step df3 = (l4, Inr df4)" and
    s5: "resistance_step df4 = (l5, Inr df5)" and
    r: "r = Markdown df5"
    by (rule pipeline_nonempty)
  have i: "index (frame_of_bars bars) = map (\<lambda>b. KTime (ts b)) bars"
    by (simp add: frame_of_bars_def)
  have k1: "keeps_bars bars df1"
    using s1 keeps_bars_refl by (rule rsi_rows)
  have k2: "keeps_bars bars df2"
    using s2 [unfolded macd_step_def] k1 assms(3) [folded i] by (rule indicator_step_rows)
  have k3: "keeps_bars bars df3"
    using s3 [unfolded bbands_step_def] k2 assms(4) [folded i] by (rule indicator_step_rows)
  have "\<exists>vs. df4 = set_column df3 (KStr ''Support'') vs"
    using s4 unfolding support_step_eq [OF keeps_bars_close [OF k3]] by auto
  then have k4: "keeps_bars bars df4"
    using k3 by (auto simp: keeps_bars_set_column frame_of_bars_def)
  have "\<exists>vs. df5 = set_column df4 (KStr ''Resistance'') vs"
    using s5 unfolding resistance_step_eq [OF keeps_bars_close [OF k4]] by auto
  then have k5: "keeps_bars bars df5"
    using k4 by (auto simp: keeps_bars_set_column frame_of_bars_def)
  then show ?thesis
    using r by (simp add: keeps_bars_def frame_of_bars_def)
qed

theorem join_preserves_rows_witness:
  "answer_index (get_price_history yf_week ta_short ''AAPL'' ''1wk'' ''1d'') =
     Some [KTime 1, KTime 2, KTime 3, KTime 4, KTime 5]
   \<and> answer_column ''Close'' (get_price_history yf_week ta_short ''AAPL'' ''1wk'' ''1d'') =
     Some [Some 11, Some 12, Some 9, Some 13, Some 10]
   \<and> answer_index (get_price_history yf_week ta_last ''AAPL'' ''1wk'' ''1d'') =
     Some [KTime 1, KTime 2, KTime 3, KTime 4, KTime 5]
   \<and> answer_column ''Close'' (get_price_history yf_week ta_last ''AAPL'' ''1wk'' ''1d'') =
     Some [Some 11, Some 12, Some 9, Some 13, Some 10]
   \<and> answer_column ''BBM_5_2.0'' (get_price_history yf_week ta_last ''AAPL'' ''1wk'' ''1d'') =
     Some [None, None, None, None, Some 10]"
proof -
  let ?T = "map (\<lambda>b. KTime (ts b)) bars5"
  have T: "?T = [KTime 1, KTime 2, KTime 3, KTime 4, KTime 5]"
    and C: "map bclose bars5 = [Some 11, Some 12, Some 9, Some 13, Some 10]"
    by (simp_all add: bars5_def)
  have m: "distinct_tables ?T (ta_macd ta_short)" and b: "distinct_tables ?T (ta_bbands ta_short)"
    unfolding T by (auto simp: distinct_tables_def ta_short_def split: if_splits)
  have m': "distinct_tables ?T (ta_macd ta_last)" and b': "distinct_tables ?T (ta_bbands ta_last)"
    by (auto simp del: One_nat_def simp add: distinct_tables_def ta_last_def distinct_last)
  from join_preserves_rows [OF week_history bars5_nonempty m b week_run]
  have short: "answer_index (get_price_history yf_week ta_short ''AAPL'' ''1wk'' ''1d'') = Some ?T
      \<and> answer_column ''Close'' (get_price_history yf_week ta_short ''AAPL'' ''1wk'' ''1d'')
          = Some (map bclose bars5)"
    by (auto simp: week_run answer_index_def answer_column_def answer_table_def)
  have "case snd (get_price_history yf_week ta_last ''AAPL'' ''1wk'' ''1d'') of
          Inl e \<Rightarrow> False | Inr r \<Rightarrow> True"
    by code_simp
  then obtain r where r: "snd (get_price_history yf_week ta_last ''AAPL'' ''1wk'' ''1d'') = Inr r"
    by (auto split: sum.splits)
  then have run: "get_price_history yf_week ta_last ''AAPL'' ''1wk'' ''1d'' =
      (fst (get_price_history yf_week ta_last ''AAPL'' ''1wk'' ''1d''), Inr r)"
    by (metis prod.collapse)
  from join_preserves_rows [OF week_history bars5_nonempty m' b' run]
  have last: "answer_index (get_price_history yf_week ta_last ''AAPL'' ''1wk'' ''1d'') = Some ?T
      \<and> answer_column ''Close'' (get_price_history yf_week ta_last ''AAPL'' ''1wk'' ''1d'')
          = Some (map bclose bars5)"
    by (auto simp: r answer_index_def answer_column_def answer_table_def)
  have "answer_column ''BBM_5_2.0'' (get_price_history yf_week ta_last ''AAPL'' ''1wk'' ''1d'') =
     Some [None, None, None, None, Some 10]"
    by code_simp
  with short last show ?thesis
    unfolding T C by simp
qed

subsection \<open>C4: support and resistance\<close>

text \<open>
  C4 says that for every fetched series that is not empty Support and Resistance hold a
  value at every row. The rolling minimum and maximum skip the closes that are missing:
  for the closes \<open>NaN\<close>, 3, \<open>NaN\<close>, 1 the first row has no close in its window, and
  Support and Resistance are missing there.
\<close>

theorem support_missing_without_close:
  "map bclose bars_gap = [None, Some 3, None, Some 1]
   \<and> answer_column ''Support'' (get_price_history yf_gap ta_short ''AAPL'' ''1wk'' ''1d'') =
       Some [None, Some 3, Some 3, Some 1]
   \<and> answer_column ''Resistance'' (get_price_history yf_gap ta_short ''AAPL'' ''1wk'' ''1d'') =
       Some [None, Some 3, Some 3, Some 3]"
  by code_simp

text \<open>
  C4 as amended: when the fetched series is not empty and \<open>get_price_history\<close> returns, it
  returns a table whose Close column holds a close of the series in every row (the
  closes of the series when the table has as many rows), and whose Support and
  Resistance columns hold, at every row \<open>i\<close>, the minimum and the maximum of the closes
  that are present in the rows \<open>i - 19\<close> to \<open>i\<close> of the Close column (from the first row on
  when there are fewer than 20), and are missing where none is present. When every close
  of the series is present, Support and Resistance are the minimum and the maximum of
  the Close column over these rows: a value at every row, the first included.
\<close>

theorem support_resistance_rolling:
  assumes "ticker_history yf symbol period interval = Inr bars" and "bars \<noteq> []"
    and "get_price_history yf ta symbol period interval = (lg, Inr r)"
  shows "\<exists>t c sup res. r = Markdown t
           \<and> map_of (columns t) (KStr ''Close'') = Some c
           \<and> map_of (columns t) (KStr ''Support'') = Some sup
           \<and> map_of (columns t) (KStr ''Resistance'') = Some res
           \<and> c \<noteq> [] \<and> set c \<subseteq> bclose ` set bars
           \<and> (length c = length bars \<longrightarrow> c = map bclose bars)
           \<and> length c = length (index t) \<and> length sup = length c \<and> length res = length c
           \<and> (\<forall>i < length c.
                 sup ! i = (if {x. \<exists>j. i - 19 \<le> j \<and> j \<le> i \<and> c ! j = Some x} = {} then None
                            else Some (Min {x. \<exists>j. i - 19 \<le> j \<and> j \<le> i \<and> c ! j = Some x}))
               \<and> res ! i = (if {x. \<exists>j. i - 19 \<le> j \<and> j \<le> i \<and> c ! j = Some x} = {} then None
                            else Some (Max {x. \<exists>j. i - 19 \<le> j \<and> j \<le> i \<and> c ! j = Some x})))
           \<and> ((\<forall>b \<in> set bars. bclose b \<noteq> None) \<longrightarrow>
                 (\<exists>cl. c = map Some cl
                    \<and> (\<forall>i < length cl. sup ! i = Some (Min ((!) cl ` {i - 19..i}))
                                       \<and> res ! i = Some (Max ((!) cl ` {i - 19..i})))))"
proof -
  from assms obtain l1 l2 l3 l4 l5 df1 df2 df3 df4 df5 where
    s1: "rsi_step ta (frame_of_bars bars) = (l1, Inr df1)" and
    s2: "macd_step ta symbol df1 = (l2, Inr df2)" and
    s3: "bbands_step ta symbol df2 = (l3, Inr df3)" and
    s4: "support_step df3 = (l4, Inr df4)" and
    s5: "resistance_step df4 = (l5, Inr df5)" and
    r: "r = Markdown df5"
    by (rule pipeline_nonempty)
  let ?c = "map bclose bars"
  have c1: "has_close df1 ?c"
    using s1 frame_of_bars_close by (rule rsi_keeps)
  obtain c2 where c2: "has_close df2 c2" "set c2 \<subseteq> set ?c" "length ?c \<le> length c2"
      "length c2 = length ?c \<longrightarrow> c2 = ?c"
    using macd_keeps [OF s2 c1] by blast
  obtain c where c3: "has_close df3 c" "set c \<subseteq> set c2" "length c2 \<le> length c"
      "length c = length c2 \<longrightarrow> c = c2"
    using bbands_keeps [OF s3 c2(1)] by blast
  define sup where "sup = map (\<lambda>i. agg min 1 (window 20 c i)) [0..<length c]"
  define res where "res = map (\<lambda>i. agg max 1 (window 20 c i)) [0..<length c]"
  have df4: "df4 = set_column df3 (KStr ''Support'') sup"
    using s4 unfolding support_step_eq [OF c3(1)] sup_def by simp
  have c4: "has_close df4 c"
    using c3(1) by (simp add: df4 has_close_set_column)
  have df5: "df5 = set_column df4 (KStr ''Resistance'') res"
    using s5 unfolding resistance_step_eq [OF c4] res_def by simp
  have c5: "has_close df5 c"
    using c4 by (simp add: df5 has_close_set_column)
  have sup: "map_of (columns df5) (KStr ''Support'') = Some sup"
    by (simp add: df5 df4 map_of_set_column)
  have res: "map_of (columns df5) (KStr ''Resistance'') = Some res"
    by (simp add: df5 map_of_set_column)
  have ne: "c \<noteq> []"
    using c2(3) c3(3) assms(2) by auto
  have sub: "set c \<subseteq> bclose ` set bars"
    using c2(2) c3(2) by auto
  have same: "length c = length bars \<longrightarrow> c = map bclose bars"
    using c2(3,4) c3(3,4) by auto
  have gen: "\<forall>i < length c.
                 sup ! i = (if {x. \<exists>j. i - 19 \<le> j \<and> j \<le> i \<and> c ! j = Some x} = {} then None
                            else Some (Min {x. \<exists>j. i - 19 \<le> j \<and> j \<le> i \<and> c ! j = Some x}))
               \<and> res ! i = (if {x. \<exists>j. i - 19 \<le> j \<and> j \<le> i \<and> c ! j = Some x} = {} then None
                            else Some (Max {x. \<exists>j. i - 19 \<le> j \<and> j \<le> i \<and> c ! j = Some x}))"
    using agg_min [of _ c] agg_max [of _ c] by (simp add: sup_def res_def del: One_nat_def)
  have lens: "length sup = length c" "length res = length c"
    by (simp_all add: sup_def res_def)
  have all: "\<exists>cl. c = map Some cl
                    \<and> (\<forall>i < length cl. sup ! i = Some (Min ((!) cl ` {i - 19..i}))
                                       \<and> res ! i = Some (Max ((!) cl ` {i - 19..i})))"
    if present: "\<forall>b \<in> set bars. bclose b \<noteq> None"
  proof -
    define cl where "cl = map the c"
    have "\<forall>x \<in> set c. x \<noteq> None"
      using sub present by auto
    then have cc: "c = map Some cl"
      unfolding cl_def by (induction c) auto
    have "sup ! i = Some (Min ((!) cl ` {i - 19..i})) \<and> res ! i = Some (Max ((!) cl ` {i - 19..i}))"
      if i: "i < length cl" for i
      using gen cc i by (rule all_present)
    with cc show ?thesis by blast
  qed
  from r c5 sup res ne sub same lens gen all show ?thesis
    unfolding has_close_def by blast
qed

theorem support_resistance_rolling_witness:
  "answer_column ''Support'' (get_price_history yf_week ta_short ''AAPL'' ''1wk'' ''1d'') =
     Some [Some 11, Some 11, Some 9, Some 9, Some 9]
   \<and> (\<exists>sup res. answer_column ''Support'' (get_price_history yf_week ta_short ''AAPL'' ''1wk'' ''1d'')
                    = Some sup
     \<and> answer_column ''Resistance'' (get_price_history yf_week ta_short ''AAPL'' ''1wk'' ''1d'')
                    = Some res
     \<and> sup ! 0 = Some (Min ((!) [11, 12, 9, 13, 10] ` {0..0}))
     \<and> res ! 0 = Some (Max ((!) [11, 12, 9, 13, 10] ` {0..0}))
     \<and> sup ! 4 = Some (Min ((!) [11, 12, 9, 13, 10] ` {0..4}))
     \<and> res ! 4 = Some (Max ((!) [11, 12, 9, 13, 10] ` {0..4})))
   \<and> (\<exists>sup. answer_column ''Support'' (get_price_history yf_month ta_short ''AAPL'' ''1mo'' ''1d'')
                = Some sup
     \<and> sup ! 19 = Some (Min ((!) closes22 ` {0..19}))
     \<and> sup ! 21 = Some (Min ((!) closes22 ` {2..21}))
     \<and> sup ! 19 = Some 1 \<and> sup ! 21 = Some 10)
   \<and> (\<exists>sup. answer_column ''Support'' (get_price_history yf_gap ta_short ''AAPL'' ''1wk'' ''1d'')
                = Some sup
     \<and> sup ! 0 = None \<and> sup ! 3 = Some (Min {3, 1}))"
proof -
  have week: "\<exists>sup res. answer_column ''Support'' (get_price_history yf_week ta_short ''AAPL'' ''1wk'' ''1d'')
                    = Some sup
     \<and> answer_column ''Resistance'' (get_price_history yf_week ta_short ''AAPL'' ''1wk'' ''1d'')
                    = Some res
     \<and> sup ! 0 = Some (Min ((!) [11, 12, 9, 13, 10] ` {0..0}))
     \<and> res ! 0 = Some (Max ((!) [11, 12, 9, 13, 10] ` {0..0}))
     \<and> sup ! 4 = Some (Min ((!) [11, 12, 9, 13, 10] ` {0..4}))
     \<and> res ! 4 = Some (Max ((!) [11, 12, 9, 13, 10] ` {0..4}))"
  proof -
    have p: "\<forall>b \<in> set bars5. bclose b \<noteq> None"
      by (simp add: bars5_def)
    from support_resistance_rolling [OF week_history bars5_nonempty week_run] p
    obtain c sup res cl where
      sup: "map_of (columns week_table) (KStr ''Support'') = Some sup" and
      res: "map_of (columns week_table) (KStr ''Resistance'') = Some res" and
      len: "length c = length (index week_table)" and
      c: "length c = length bars5 \<longrightarrow> c = map bclose bars5" and
      cl: "c = map Some cl" and
      all: "\<forall>i < length cl. sup ! i = Some (Min ((!) cl ` {i - 19..i}))
                          \<and> res ! i = Some (Max ((!) cl ` {i - 19..i}))"
      by blast
    from len c have "c = map Some [11, 12, 9, 13, 10]"
      by (simp add: week_table_def bars5_def)
    with cl have "map Some cl = map Some [11, 12, 9, 13, 10]"
      by (simp only:)
    then have cl': "cl = [11, 12, 9, 13, 10]"
      by (rule map_Some_eq)
    from all have "sup ! 0 = Some (Min ((!) cl ` {0 - 19..0}))
        \<and> res ! 0 = Some (Max ((!) cl ` {0 - 19..0}))
        \<and> sup ! 4 = Some (Min ((!) cl ` {4 - 19..4}))
        \<and> res ! 4 = Some (Max ((!) cl ` {4 - 19..4}))"
      by (simp add: cl')
    with sup res show ?thesis
      by (simp add: cl' week_run answer_column_def answer_table_def)
  qed
  have month: "\<exists>sup. answer_column ''Support'' (get_price_history yf_month ta_short ''AAPL'' ''1mo'' ''1d'')
                = Some sup
     \<and> sup ! 19 = Some (Min ((!) closes22 ` {0..19}))
     \<and> sup ! 21 = Some (Min ((!) closes22 ` {2..21}))
     \<and> sup ! 19 = Some 1 \<and> sup ! 21 = Some 10"
  proof -
    have h: "ticker_history yf_month ''AAPL'' ''1mo'' ''1d'' = Inr bars22"
      by (simp add: yf_month_def no_provider_def)
    have ne: "bars22 \<noteq> []"
      by code_simp
    have p: "\<forall>b \<in> set bars22. bclose b \<noteq> None"
      by (auto simp: bars22_def)
    have "answer_index (get_price_history yf_month ta_short ''AAPL'' ''1mo'' ''1d'')
            = Some (map (\<lambda>i. KTime (int i)) [0..<22])"
      by code_simp
    then obtain t where t: "snd (get_price_history yf_month ta_short ''AAPL'' ''1mo'' ''1d'')
          = Inr (Markdown t)" "length (index t) = 22"
      by (auto simp: answer_index_def answer_table_def split: sum.splits response.splits)
    then have run: "get_price_history yf_month ta_short ''AAPL'' ''1mo'' ''1d'' =
        (fst (get_price_history yf_month ta_short ''AAPL'' ''1mo'' ''1d''), Inr (Markdown t))"
      by (metis prod.collapse)
    have b: "map bclose bars22 = map Some closes22" "length bars22 = 22"
      by (simp_all add: bars22_def closes22_def)
    from support_resistance_rolling [OF h ne run] p
    obtain c sup cl where
      sup: "map_of (columns t) (KStr ''Support'') = Some sup" and
      len: "length c = length (index t)" and
      c: "length c = length bars22 \<longrightarrow> c = map bclose bars22" and
      cl: "c = map Some cl" and
      all: "\<forall>i < length cl. sup ! i = Some (Min ((!) cl ` {i - 19..i}))"
      by blast
    from len c t(2) b have "c = map Some closes22"
      by simp
    with cl have "map Some cl = map Some closes22"
      by (simp only:)
    then have cl': "cl = closes22"
      by (rule map_Some_eq)
    have l: "length closes22 = 22"
      by (simp add: closes22_def)
    from all have "sup ! 19 = Some (Min ((!) cl ` {19 - 19..19}))"
        "sup ! 21 = Some (Min ((!) cl ` {21 - 19..21}))"
      by (simp_all add: cl' l)
    then have w: "sup ! 19 = Some (Min ((!) closes22 ` {0..19}))"
        "sup ! 21 = Some (Min ((!) closes22 ` {2..21}))"
      by (simp_all add: cl')
    have m: "Min ((!) closes22 ` {0..19}) = 1" "Min ((!) closes22 ` {2..21}) = 10"
      by code_simp+
    from t(1) sup w m show ?thesis
      by (auto simp: answer_column_def answer_table_def)
  qed
  have gap: "\<exists>sup. answer_column ''Support'' (get_price_history yf_gap ta_short ''AAPL'' ''1wk'' ''1d'')
                = Some sup
     \<and> sup ! 0 = None \<and> sup ! 3 = Some (Min {3, 1})"
  proof -
    have h: "ticker_history yf_gap ''AAPL'' ''1wk'' ''1d'' = Inr bars_gap"
      by (simp add: yf_gap_def no_provider_def)
    have ne: "bars_gap \<noteq> []"
      by (simp add: bars_gap_def)
    have "answer_index (get_price_history yf_gap ta_short ''AAPL'' ''1wk'' ''1d'')
            = Some [KTime 1, KTime 2, KTime 3, KTime 4]"
      by code_simp
    then obtain t where t: "snd (get_price_history yf_gap ta_short ''AAPL'' ''1wk'' ''1d'')
          = Inr (Markdown t)" "length (index t) = 4"
      by (auto simp: answer_index_def answer_table_def split: sum.splits response.splits)
    then have run: "get_price_history yf_gap ta_short ''AAPL'' ''1wk'' ''1d'' =
        (fst (get_price_history yf_gap ta_short ''AAPL'' ''1wk'' ''1d''), Inr (Markdown t))"
      by (metis prod.collapse)
    from support_resistance_rolling [OF h ne run]
    obtain c sup where
      sup: "map_of (columns t) (KStr ''Support'') = Some sup" and
      len: "length c = length (index t)" and
      c: "length c = length bars_gap \<longrightarrow> c = map bclose bars_gap" and
      gen: "\<forall>i < length c.
                 sup ! i = (if {x. \<exists>j. i - 19 \<le> j \<and> j \<le> i \<and> c ! j = Some x} = {} then None
                            else Some (Min {x. \<exists>j. i - 19 \<le> j \<and> j \<le> i \<and> c ! j = Some x}))"
      by blast
    from len c t(2) have c': "c = [None, Some 3, None, Some 1]"
      by (simp add: bars_gap_def)
    have p0: "{x. \<exists>j. 0 - 19 \<le> j \<and> j \<le> (0::nat) \<and> c ! j = Some x} = {}"
      by (auto simp: c')
    have p3: "{x. \<exists>j. 3 - 19 \<le> j \<and> j \<le> (3::nat) \<and> c ! j = Some x} = {3, 1}"
      by (auto simp: c' nth_Cons' split: if_splits)
    from gen have "sup ! 0 = (if {x. \<exists>j. 0 - 19 \<le> j \<and> j \<le> (0::nat) \<and> c ! j = Some x} = {} then None
                            else Some (Min {x. \<exists>j. 0 - 19 \<le> j \<and> j \<le> (0::nat) \<and> c ! j = Some x}))"
        "sup ! 3 = (if {x. \<exists>j. 3 - 19 \<le> j \<and> j \<le> (3::nat) \<and> c ! j = Some x} = {} then None
                            else Some (Min {x. \<exists>j. 3 - 19 \<le> j \<and> j \<le> (3::nat) \<and> c ! j = Some x}))"
      by (simp_all add: c')
    then have "sup ! 0 = None" "sup ! 3 = Some (Min {3, 1})"
      unfolding p0 p3 by simp_all
    with t(1) sup show ?thesis
      by (auto simp: answer_column_def answer_table_def)
  qed
  have "answer_column ''Support'' (get_price_history yf_week ta_short ''AAPL'' ''1wk'' ''1d'') =
     Some [Some 11, Some 11, Some 9, Some 9, Some 9]"
    by code_simp
  with week month gap show ?thesis
    by blast
qed

subsection \<open>C5: the fallback of get_stock_info\<close>

text \<open>
  C5 says that the symbol-not-found message is returned when the attribute map fetched
  again under the corrected symbol is still empty. The map fetched again is not tested:
  for \<open>XYZ\<close>, whose map is empty and for which the lookup proposes \<open>XYZ.F\<close>, whose map is
  empty too, \<open>get_stock_info\<close> looks up once, fetches again once, and answers with the
  equity record of \<open>XYZ.F\<close> made of the empty map, in which every attribute is \<open>None\<close>.
\<close>

theorem empty_info_after_lookup_not_reported:
  "ticker_info yf_unknown ''XYZ'' = Inr []
   \<and> get_stock_symbol_lookup yf_unknown ''XYZ'' = ([], Inr ''XYZ.F'')
   \<and> ticker_info yf_unknown ''XYZ.F'' = Inr []
   \<and> get_stock_info yf_unknown str_int ''XYZ'' =
       ([Log WARNING [Lit ''No info found for XYZ, attempting symbol lookup''],
         Log INFO [Lit ''Found correct symbol: XYZ.F''],
         Log INFO [Lit ''Fetching news for symbol: XYZ.F''],
         Log INFO [Lit ''No news found for XYZ.F''],
         Log INFO [Lit ''Retrieved stock info for XYZ.F: '', Obj xyz_response]],
        Inr xyz_response)
   \<and> dict_get [] (KStr ''currentPrice'') = PNone"
  by code_simp

subsection \<open>C6: the groups of a fund and of an equity\<close>

text \<open>
  C6: when \<open>get_stock_info\<close> answers for a symbol whose attribute map it has found, the
  answer is a JSON object. For a fund (\<open>quoteType\<close> equal to \<open>ETF\<close>) its keys are the
  type, the four fund groups and the news, each group with its fixed attribute names,
  and no equity group; for any other symbol its keys are the type, the nine equity groups
  and the news, and no fund group. The names of the fund groups and of the equity groups
  are disjoint.
\<close>

theorem stock_info_groups:
  assumes "resolve_info yf symbol0 = (l0, Inr (Inr (info, symbol)))"
    and "get_stock_info yf fmt symbol0 = (lg, Inr response)"
  shows "\<exists>out. response = PDumps (PDict out) \<and>
     (if dict_get info (KStr ''quoteType'') = PStr ''ETF''
      then map fst out = map KStr (''stock_type'' # map fst fund_groups @ [''stock_news''])
         \<and> map_of out (KStr ''stock_type'') = Some (PStr ''ETF'')
         \<and> (\<forall>(g, ks) \<in> set fund_groups. map_of out (KStr g) = Some (attrs info ks))
         \<and> (\<forall>g \<in> set equity_group_names. map_of out (KStr g) = None)
      else map fst out = map KStr (''stock_type'' # equity_group_names @ [''stock_news''])
         \<and> map_of out (KStr ''stock_type'') = Some (PStr ''EQUITY'')
         \<and> (\<forall>(g, ks) \<in> set equity_info_groups. map_of out (KStr g) = Some (attrs info ks))
         \<and> (\<forall>(g, ks) \<in> set equity_statement_groups.
               map_of out (KStr g) = Some (PDict []) \<or> (\<exists>d. map_of out (KStr g) = Some (attrs d ks)))
         \<and> (\<forall>g \<in> set (map fst fund_groups). map_of out (KStr g) = None))
     \<and> set (map fst fund_groups) \<inter> set equity_group_names = {}"
proof (cases "dict_get info (KStr ''quoteType'') = PStr ''ETF''")
  case True
  with get_stock_info_shape [OF assms] obtain stock_news
    where "response = etf_response info stock_news" by auto
  then show ?thesis
    unfolding etf_response_eq using True
    by (simp add: fund_groups_def equity_group_names_def equity_info_groups_def
          equity_statement_groups_def)
next
  case False
  with get_stock_info_shape [OF assms] obtain bs fin cf apt stock_news
    where "equity_response info bs fin cf apt stock_news = Inr response" by auto
  from equity_response_eq [OF this] obtain b i c where
    e: "essentials bs balance_sheet_essentials = Inr b"
       "essentials fin income_stmt_items = Inr i"
       "essentials cf cash_flow_highlights = Inr c"
    and r: "response = PDumps (PDict
            [(KStr ''stock_type'', PStr ''EQUITY''),
             (KStr ''core_valuation_metrics'', attrs info core_valuation_keys),
             (KStr ''financial_performance'', attrs info financial_performance_keys),
             (KStr ''financial_health'', attrs info financial_health_keys),
             (KStr ''market_data_trading'', attrs info market_data_keys),
             (KStr ''dividend_information'', attrs info dividend_info_keys),
             (KStr ''balance_sheet_essentials'', b),
             (KStr ''income_statement_key_items'', i),
             (KStr ''cash_flow_highlights'', c),
             (KStr ''analyst_price_targets'', apt),
             (KStr ''stock_news'', stock_news)])"
    by blast
  have "b = PDict [] \<or> (\<exists>d. b = attrs d balance_sheet_essentials)"
       "i = PDict [] \<or> (\<exists>d. i = attrs d income_stmt_items)"
       "c = PDict [] \<or> (\<exists>d. c = attrs d cash_flow_highlights)"
    using e essentials_shape keys_distinct by blast+
  then show ?thesis
    unfolding r using False
    by (simp add: fund_groups_def equity_group_names_def equity_info_groups_def
          equity_statement_groups_def)
qed

theorem stock_info_groups_witness:
  "(\<exists>out. snd (get_stock_info yf_spy str_int ''SPY'') = Inr (PDumps (PDict out))
     \<and> map fst out = map KStr [''stock_type'', ''etf_analysis'', ''trading_valuation'',
                               ''price_movement'', ''fund_information'', ''stock_news'']
     \<and> map_of out (KStr ''stock_type'') = Some (PStr ''ETF'')
     \<and> map_of out (KStr ''fund_information'') = Some (attrs spy_info etf_fund_info_keys)
     \<and> map_of out (KStr ''balance_sheet_essentials'') = None)
   \<and> (\<exists>out. snd (get_stock_info yf_msft str_int ''MSFT'') = Inr (PDumps (PDict out))
     \<and> map fst out = map KStr [''stock_type'', ''core_valuation_metrics'',
                               ''financial_performance'', ''financial_health'',
                               ''market_data_trading'', ''dividend_information'',
                               ''balance_sheet_essentials'', ''income_statement_key_items'',
                               ''cash_flow_highlights'', ''analyst_price_targets'', ''stock_news'']
     \<and> map_of out (KStr ''stock_type'') = Some (PStr ''EQUITY'')
     \<and> map_of out (KStr ''core_valuation_metrics'') = Some (attrs msft_info core_valuation_keys)
     \<and> map_of out (KStr ''etf_analysis'') = None)"
proof -
  have r: "resolve_info yf_spy ''SPY'' = ([], Inr (Inr (spy_info, ''SPY'')))"
    by code_simp
  have e: "dict_get spy_info (KStr ''quoteType'') = PStr ''ETF''"
    by code_simp
  have "case snd (get_stock_info yf_spy str_int ''SPY'') of Inl e \<Rightarrow> False | Inr x \<Rightarrow> True"
    by code_simp
  then obtain x where x: "snd (get_stock_info yf_spy str_int ''SPY'') = Inr x"
    by (cases "snd (get_stock_info yf_spy str_int ''SPY'')") auto
  then have g: "get_stock_info yf_spy str_int ''SPY'' = (fst (get_stock_info yf_spy str_int ''SPY''), Inr x)"
    by (metis prod.collapse)
  have r': "resolve_info yf_msft ''MSFT'' = ([], Inr (Inr (msft_info, ''MSFT'')))"
    by code_simp
  have e': "dict_get msft_info (KStr ''quoteType'') \<noteq> PStr ''ETF''"
    by code_simp
  have "case snd (get_stock_info yf_msft str_int ''MSFT'') of Inl e \<Rightarrow> False | Inr x \<Rightarrow> True"
    by code_simp
  then obtain y where y: "snd (get_stock_info yf_msft str_int ''MSFT'') = Inr y"
    by (cases "snd (get_stock_info yf_msft str_int ''MSFT'')") auto
  then have g': "get_stock_info yf_msft str_int ''MSFT'' = (fst (get_stock_info yf_msft str_int ''MSFT''), Inr y)"
    by (metis prod.collapse)
  from stock_info_groups [OF r g] e
  have "\<exists>out. snd (get_stock_info yf_spy str_int ''SPY'') = Inr (PDumps (PDict out))
     \<and> map fst out = map KStr [''stock_type'', ''etf_analysis'', ''trading_valuation'',
                               ''price_movement'', ''fund_information'', ''stock_news'']
     \<and> map_of out (KStr ''stock_type'') = Some (PStr ''ETF'')
     \<and> map_of out (KStr ''fund_information'') = Some (attrs spy_info etf_fund_info_keys)
     \<and> map_of out (KStr ''balance_sheet_essentials'') = None"
    by (auto simp: x fund_groups_def equity_group_names_def equity_info_groups_def
          equity_statement_groups_def)
  moreover from stock_info_groups [OF r' g'] e'
  have "\<exists>out. snd (get_stock_info yf_msft str_int ''MSFT'') = Inr (PDumps (PDict out))
     \<and> map fst out = map KStr [''stock_type'', ''core_valuation_metrics'',
                               ''financial_performance'', ''financial_health'',
                               ''market_data_trading'', ''dividend_information'',
                               ''balance_sheet_essentials'', ''income_statement_key_items'',
                               ''cash_flow_highlights'', ''analyst_price_targets'', ''stock_news'']
     \<and> map_of out (KStr ''stock_type'') = Some (PStr ''EQUITY'')
     \<and> map_of out (KStr ''core_valuation_metrics'') = Some (attrs msft_info core_valuation_keys)
     \<and> map_of out (KStr ''etf_analysis'') = None"
    by (auto simp: y fund_groups_def equity_group_names_def equity_info_groups_def
          equity_statement_groups_def)
  ultimately show ?thesis
    by (rule conjI)
qed

subsection \<open>C7: the news projection\<close>

text \<open>
  C7 says that every news item that is a dict with a \<open>content\<close> key is projected. The
  function reads the fields with \<open>content.get\<close>: for an item whose content is \<open>None\<close>
  the call raises and there is no answer.
\<close>

theorem news_content_none_raises:
  "get_stock_news yf_null_content ''AAPL'' =
     ([Log INFO [Lit ''Fetching news for symbol: AAPL'']],
      Inl (AttributeError ''object has no attribute get''))"
  by code_simp

text \<open>
  C7 as amended: when every content the items hold is a dict, the answer is the message
  \<open>No news articles found for <symbol>.\<close> when the provider returns no item, and
  otherwise the JSON list of the triples (title, summary, pubDate) of the items that are
  a dict with a content, in order, with \<open>No title\<close>, \<open>No summary\<close> and \<open>No date\<close> for the
  fields that are missing; the other items are skipped.
\<close>

theorem news_projection:
  assumes "ticker_get_news yf symbol = Inr news"
    and "\<forall>item \<in> set news. content_is_dict item"
  shows "\<exists>lg. get_stock_news yf symbol =
           (lg, Inr (if news = [] then PStr (''No news articles found for '' @ symbol @ ''.'')
                     else PDumps (PList (List.map_filter news_triple news))))"
  unfolding get_stock_news_def assms(1) bind_lift_Inr bind_logger_info
  by (simp add: simplify_news_triples [OF assms(2)] bind_lift_Inr bind_logger_info ret_def)

theorem news_projection_witness:
  "snd (get_stock_news yf_spy ''SPY'') =
     Inr (PDumps (PList [PDict [(KStr ''title'', PStr ''Rates''),
                                (KStr ''summary'', PStr ''No summary''),
                                (KStr ''pubDate'', PStr ''No date'')]]))"
proof -
  have n: "ticker_get_news yf_spy ''SPY'' = Inr spy_news"
    by (simp add: yf_spy_def no_provider_def)
  have c: "\<forall>item \<in> set spy_news. content_is_dict item"
    by (simp add: spy_news_def content_is_dict_def)
  have t: "List.map_filter news_triple spy_news =
             [PDict [(KStr ''title'', PStr ''Rates''),
                     (KStr ''summary'', PStr ''No summary''),
                     (KStr ''pubDate'', PStr ''No date'')]]"
    by code_simp
  have ne: "spy_news \<noteq> []"
    by (simp add: spy_news_def)
  from news_projection [OF n c] show ?thesis
    by (auto simp: t ne)
qed

subsection \<open>C8: the search type\<close>

text \<open>
  C8 says that every search type other than \<open>all\<close>, \<open>quotes\<close> and \<open>news\<close> gets the
  message. The type is compared in lower case: \<open>ALL\<close> is none of the three and gets the
  results of \<open>all\<close>.
\<close>

theorem search_type_upper_case_accepted:
  "''ALL'' \<noteq> ''all'' \<and> ''ALL'' \<noteq> ''quotes'' \<and> ''ALL'' \<noteq> ''news''
   \<and> search yf_search ''apple'' ''ALL'' =
       ([Log INFO [Lit ''Search results for apple (ALL): '', Obj (PDict [(KStr ''count'', PInt 1)])]],
        Inr (PDumps (PDict [(KStr ''count'', PInt 1)])))"
  by code_simp

text \<open>
  C8 as amended: once the search object is constructed, every search type whose lower
  case is none of \<open>all\<close>, \<open>quotes\<close> and \<open>news\<close> gets the one message, nothing is logged
  and no result of the search is read.
\<close>

theorem search_invalid_type:
  assumes "Search yf query None = Inr s"
    and "lower search_type \<noteq> ''all''" and "lower search_type \<noteq> ''quotes''"
    and "lower search_type \<noteq> ''news''"
  shows "search yf query search_type =
           ([], Inr (PStr ''Invalid output_type. Use 'all', 'quotes', or 'news'.''))"
  unfolding search_def assms(1) bind_lift_Inr
  using assms(2-4) by (simp add: Let_def ret_def)

theorem search_invalid_type_witness:
  "search yf_search ''apple'' ''Everything'' =
     ([], Inr (PStr ''Invalid output_type. Use 'all', 'quotes', or 'news'.''))"
proof -
  have s: "Search yf_search ''apple'' None =
             Inr \<lparr>s_all = PDict [(KStr ''count'', PInt 1)],
                  s_quotes = [\<lparr>q_before = [(KStr ''exchange'', PStr ''NMS'')],
                                          q_symbol = ''AAPL'', q_after = []\<rparr>],
                  s_news = PList []\<rparr>"
    by (simp add: yf_search_def no_provider_def)
  have l: "lower ''Everything'' \<noteq> ''all''" "lower ''Everything'' \<noteq> ''quotes''"
    "lower ''Everything'' \<noteq> ''news''"
    by code_simp+
  show ?thesis
    by (rule search_invalid_type [OF s l])
qed

subsection \<open>C9: the last 20 recommendations\<close>

text \<open>
  C9: for a recommendations table that is not empty the answer is the table of its last
  20 rows, in their order (all rows when there are fewer); when the provider has no table
  or an empty one, the answer is the message
  \<open>No analyst recommendations available for <symbol>.\<close>
\<close>

theorem recommendations_tail:
  "(\<forall>df. ticker_recommendations yf symbol = Inr (Some df) \<longrightarrow> \<not> df_empty df \<longrightarrow>
      get_stock_recommendations yf symbol =
        ([Log INFO [Lit (''Retrieved recommendations for '' @ symbol @ '': ''), Tbl (tail 20 df)]],
         Inr (Markdown (tail 20 df)))
      \<and> length (index (tail 20 df)) \<le> 20
      \<and> index (tail 20 df) = drop (length (index df) - 20) (index df)
      \<and> map fst (columns (tail 20 df)) = map fst (columns df)
      \<and> (\<forall>k c. map_of (columns df) k = Some c \<longrightarrow>
             map_of (columns (tail 20 df)) k = Some (drop (length c - 20) c)))
   \<and> (ticker_recommendations yf symbol = Inr None
        \<or> (\<exists>df. ticker_recommendations yf symbol = Inr (Some df) \<and> df_empty df) \<longrightarrow>
      get_stock_recommendations yf symbol =
        ([Log INFO [Lit (''No recommendations found for '' @ symbol)]],
         Inr (Message (''No analyst recommendations available for '' @ symbol @ ''.''))))"
proof (intro conjI allI impI)
  fix df
  assume a: "ticker_recommendations yf symbol = Inr (Some df)" "\<not> df_empty df"
  show "get_stock_recommendations yf symbol =
        ([Log INFO [Lit (''Retrieved recommendations for '' @ symbol @ '': ''), Tbl (tail 20 df)]],
         Inr (Markdown (tail 20 df)))"
    unfolding get_stock_recommendations_def a(1) bind_lift_Inr
    by (simp add: a(2) bind_logger_info ret_def Let_def)
  show "length (index (tail 20 df)) \<le> 20"
    by (simp add: tail_def)
  show "index (tail 20 df) = drop (length (index df) - 20) (index df)"
    by (simp add: tail_def)
  show "map fst (columns (tail 20 df)) = map fst (columns df)"
    by (simp add: tail_def comp_def case_prod_unfold)
  show "map_of (columns (tail 20 df)) k = Some (drop (length c - 20) c)"
    if "map_of (columns df) k = Some c" for k c
    using that by (simp add: tail_def map_of_map)
next
  assume "ticker_recommendations yf symbol = Inr None
        \<or> (\<exists>df. ticker_recommendations yf symbol = Inr (Some df) \<and> df_empty df)"
  then show "get_stock_recommendations yf symbol =
        ([Log INFO [Lit (''No recommendations found for '' @ symbol)]],
         Inr (Message (''No analyst recommendations available for '' @ symbol @ ''.'')))"
    unfolding get_stock_recommendations_def
    by (auto simp: bind_lift_Inr bind_logger_info ret_def)
qed

theorem recommendations_tail_witness:
  "get_stock_recommendations yf_recs ''AAPL'' =
     ([Log INFO [Lit ''Retrieved recommendations for AAPL: '', Tbl (tail 20 recs22)]],
      Inr (Markdown (tail 20 recs22)))
   \<and> length (index recs22) = 22
   \<and> index (tail 20 recs22) = map (\<lambda>i. KInt (int i)) [2..<22]
   \<and> get_stock_recommendations yf_no_recs ''AAPL'' =
       ([Log INFO [Lit ''No recommendations found for AAPL'']],
        Inr (Message ''No analyst recommendations available for AAPL.''))"
proof -
  have r: "ticker_recommendations yf_recs ''AAPL'' = Inr (Some recs22)"
    by (simp add: yf_recs_def no_provider_def)
  have ne: "\<not> df_empty recs22"
    by (simp add: df_empty_def recs22_def)
  have n: "ticker_recommendations yf_no_recs ''AAPL'' = Inr None"
    by (simp add: yf_no_recs_def no_provider_def)
  have i: "drop (length (index recs22) - 20) (index recs22) = map (\<lambda>i. KInt (int i)) [2..<22]"
    "length (index recs22) = 22"
    by code_simp+
  from recommendations_tail [of yf_recs "''AAPL''"] r ne
  have "get_stock_recommendations yf_recs ''AAPL'' =
        ([Log INFO [Lit (''Retrieved recommendations for '' @ ''AAPL'' @ '': ''), Tbl (tail 20 recs22)]],
         Inr (Markdown (tail 20 recs22)))
      \<and> index (tail 20 recs22) = drop (length (index recs22) - 20) (index recs22)"
    by blast
  moreover from recommendations_tail [of yf_no_recs "''AAPL''"] n
  have "get_stock_recommendations yf_no_recs ''AAPL'' =
        ([Log INFO [Lit (''No recommendations found for '' @ ''AAPL'')]],
         Inr (Message (''No analyst recommendations available for '' @ ''AAPL'' @ ''.'')))"
    by blast
  ultimately show ?thesis
    using i by simp
qed

subsection \<open>C10: df_to_dict_str_keys\<close>

text \<open>
  C10: \<open>df_to_dict_str_keys\<close> returns \<open>None\<close> exactly when it is given \<open>None\<close>. Given a
  table it returns a dict of dicts with distinct keys. Its keys are the \<open>str\<close> of the
  column labels. Every entry is the dict of a column of the table under the \<open>str\<close> of its
  label: the keys of that dict are the \<open>str\<close> of the row labels of the column, every
  value in it is the value the column holds at a row with that label, unchanged, and the
  value of a row is in it under the \<open>str\<close> of its label, unless another row whose label
  has the same \<open>str\<close> holds another value. When the \<open>str\<close> of the row labels are
  distinct and the \<open>str\<close> of the column labels are distinct, the result is the table
  itself, column by column and row by row, with every label replaced by its \<open>str\<close>.
\<close>

theorem df_to_dict_str_keys_spec:
  "(df_to_dict_str_keys fmt df = Inr PNone \<longleftrightarrow> df = None) \<and>
   (\<forall>f. df = Some f \<longrightarrow>
      (\<exists>d. df_to_dict_str_keys fmt df = Inr (PDict d)
         \<and> distinct (map fst d)
         \<and> fst ` set d = (\<lambda>k. KStr (str_key fmt k)) ` fst ` set (columns f)
         \<and> (\<forall>k v. (k, v) \<in> set d \<longrightarrow>
               (\<exists>c col inner. (c, col) \<in> set (columns f) \<and> k = KStr (str_key fmt c)
                  \<and> v = PDict inner
                  \<and> distinct (map fst inner)
                  \<and> fst ` set inner = (\<lambda>i. KStr (str_key fmt i)) ` fst ` set (zip (index f) col)
                  \<and> (\<forall>kk vv. (kk, vv) \<in> set inner \<longrightarrow>
                        (\<exists>i. (i, vv) \<in> set (zip (index f) col) \<and> kk = KStr (str_key fmt i)))
                  \<and> (\<forall>i x. (i, x) \<in> set (zip (index f) col) \<longrightarrow>
                        (\<forall>i' x'. (i', x') \<in> set (zip (index f) col) \<longrightarrow>
                            str_key fmt i' = str_key fmt i \<longrightarrow> x' = x) \<longrightarrow>
                        (KStr (str_key fmt i), x) \<in> set inner)))
         \<and> (distinct (map (str_key fmt) (index f)) \<longrightarrow>
            distinct (map (\<lambda>p. str_key fmt (fst p)) (columns f)) \<longrightarrow>
              d = map (\<lambda>(c, col). (KStr (str_key fmt c),
                         PDict (map (\<lambda>(i, x). (KStr (str_key fmt i), x)) (zip (index f) col))))
                      (columns f))))"
proof -
  have some: "\<exists>d. df_to_dict_str_keys fmt (Some f) = Inr (PDict d)
         \<and> distinct (map fst d)
         \<and> fst ` set d = (\<lambda>k. KStr (str_key fmt k)) ` fst ` set (columns f)
         \<and> (\<forall>k v. (k, v) \<in> set d \<longrightarrow>
               (\<exists>c col inner. (c, col) \<in> set (columns f) \<and> k = KStr (str_key fmt c)
                  \<and> v = PDict inner
                  \<and> distinct (map fst inner)
                  \<and> fst ` set inner = (\<lambda>i. KStr (str_key fmt i)) ` fst ` set (zip (index f) col)
                  \<and> (\<forall>kk vv. (kk, vv) \<in> set inner \<longrightarrow>
                        (\<exists>i. (i, vv) \<in> set (zip (index f) col) \<and> kk = KStr (str_key fmt i)))
                  \<and> (\<forall>i x. (i, x) \<in> set (zip (index f) col) \<longrightarrow>
                        (\<forall>i' x'. (i', x') \<in> set (zip (index f) col) \<longrightarrow>
                            str_key fmt i' = str_key fmt i \<longrightarrow> x' = x) \<longrightarrow>
                        (KStr (str_key fmt i), x) \<in> set inner)))
         \<and> (distinct (map (str_key fmt) (index f)) \<longrightarrow>
            distinct (map (\<lambda>p. str_key fmt (fst p)) (columns f)) \<longrightarrow>
              d = map (\<lambda>(c, col). (KStr (str_key fmt c),
                         PDict (map (\<lambda>(i, x). (KStr (str_key fmt i), x)) (zip (index f) col))))
                      (columns f))" for f
  proof -
    obtain d0 where d0: "to_dict f = PDict d0" "fst ` set d0 = fst ` set (columns f)"
      "\<forall>p \<in> set d0. \<exists>col. (fst p, col) \<in> set (columns f) \<and> snd p = PDict (dict_of (zip (index f) col))"
      using to_dict_shape by blast
    then have "\<forall>p \<in> set d0. \<exists>inner. snd p = PDict inner"
      by blast
    from str_keys_outer_ok [OF this, of fmt "[]"] obtain r where r: "str_keys_outer fmt [] d0 = Inr r"
      "fst ` set r = (\<lambda>k. KStr (str_key fmt k)) ` fst ` set d0"
      "\<forall>p \<in> set r. \<exists>k inner. (k, PDict inner) \<in> set d0
           \<and> p = (KStr (str_key fmt k), PDict (str_keys fmt inner))"
      by auto
    have res: "df_to_dict_str_keys fmt (Some f) = Inr (PDict r)"
      by (simp add: df_to_dict_str_keys_def d0(1) r(1))
    have dist: "distinct (map fst r)"
      using r(1) by (rule str_keys_outer_distinct_keys) simp
    have keys: "fst ` set r = (\<lambda>k. KStr (str_key fmt k)) ` fst ` set (columns f)"
      by (simp add: r(2) d0(2))
    have entry: "\<exists>c col inner. (c, col) \<in> set (columns f) \<and> k = KStr (str_key fmt c)
                  \<and> v = PDict inner
                  \<and> distinct (map fst inner)
                  \<and> fst ` set inner = (\<lambda>i. KStr (str_key fmt i)) ` fst ` set (zip (index f) col)
                  \<and> (\<forall>kk vv. (kk, vv) \<in> set inner \<longrightarrow>
                        (\<exists>i. (i, vv) \<in> set (zip (index f) col) \<and> kk = KStr (str_key fmt i)))
                  \<and> (\<forall>i x. (i, x) \<in> set (zip (index f) col) \<longrightarrow>
                        (\<forall>i' x'. (i', x') \<in> set (zip (index f) col) \<longrightarrow>
                            str_key fmt i' = str_key fmt i \<longrightarrow> x' = x) \<longrightarrow>
                        (KStr (str_key fmt i), x) \<in> set inner)"
      if "(k, v) \<in> set r" for k v
    proof -
      from r(3) that obtain c inner0 where c: "(c, PDict inner0) \<in> set d0"
        "k = KStr (str_key fmt c)" "v = PDict (str_keys fmt inner0)"
        by blast
      from d0(3) c(1) obtain col where col: "(c, col) \<in> set (columns f)"
        "inner0 = dict_of (zip (index f) col)"
        by force
      let ?inner = "str_keys fmt (dict_of (zip (index f) col))"
      have sh: "distinct (map fst ?inner)"
        "fst ` set ?inner = (\<lambda>i. KStr (str_key fmt i)) ` fst ` set (zip (index f) col)"
        "\<forall>kk vv. (kk, vv) \<in> set ?inner \<longrightarrow>
            (\<exists>i. (i, vv) \<in> set (zip (index f) col) \<and> kk = KStr (str_key fmt i))"
        using str_keys_shape [of fmt "zip (index f) col"] by blast+
      have pres: "(KStr (str_key fmt i), x) \<in> set ?inner"
        if "(i, x) \<in> set (zip (index f) col)"
          "\<forall>i' x'. (i', x') \<in> set (zip (index f) col) \<longrightarrow> str_key fmt i' = str_key fmt i \<longrightarrow> x' = x"
        for i x
        using sh(2,3) that by (rule present_unless_collision)
      from col(1) c(2) c(3) [unfolded col(2)] sh pres show ?thesis
        by blast
    qed
    have exact: "r = map (\<lambda>(c, col). (KStr (str_key fmt c),
                         PDict (map (\<lambda>(i, x). (KStr (str_key fmt i), x)) (zip (index f) col))))
                      (columns f)"
      if "distinct (map (str_key fmt) (index f))" "distinct (map (\<lambda>p. str_key fmt (fst p)) (columns f))"
      using df_to_dict_exact [OF that] unfolding res by simp
    from res dist keys entry exact show ?thesis
      by blast
  qed
  have none: "df_to_dict_str_keys fmt df = Inr PNone \<longleftrightarrow> df = None"
  proof (cases df)
    case None
    then show ?thesis by (simp add: df_to_dict_str_keys_def)
  next
    case (Some f)
    from some [of f] obtain d where "df_to_dict_str_keys fmt (Some f) = Inr (PDict d)"
      by (elim exE conjE)
    then show ?thesis
      by (simp add: Some)
  qed
  show ?thesis
  proof (intro conjI allI impI)
    show "df_to_dict_str_keys fmt df = Inr PNone \<longleftrightarrow> df = None"
      by (rule none)
  next
    fix f
    assume "df = Some f"
    then show "\<exists>d. df_to_dict_str_keys fmt df = Inr (PDict d)
         \<and> distinct (map fst d)
         \<and> fst ` set d = (\<lambda>k. KStr (str_key fmt k)) ` fst ` set (columns f)
         \<and> (\<forall>k v. (k, v) \<in> set d \<longrightarrow>
               (\<exists>c col inner. (c, col) \<in> set (columns f) \<and> k = KStr (str_key fmt c)
                  \<and> v = PDict inner
                  \<and> distinct (map fst inner)
                  \<and> fst ` set inner = (\<lambda>i. KStr (str_key fmt i)) ` fst ` set (zip (index f) col)
                  \<and> (\<forall>kk vv. (kk, vv) \<in> set inner \<longrightarrow>
                        (\<exists>i. (i, vv) \<in> set (zip (index f) col) \<and> kk = KStr (str_key fmt i)))
                  \<and> (\<forall>i x. (i, x) \<in> set (zip (index f) col) \<longrightarrow>
                        (\<forall>i' x'. (i', x') \<in> set (zip (index f) col) \<longrightarrow>
                            str_key fmt i' = str_key fmt i \<longrightarrow> x' = x) \<longrightarrow>
                        (KStr (str_key fmt i), x) \<in> set inner)))
         \<and> (distinct (map (str_key fmt) (index f)) \<longrightarrow>
            distinct (map (\<lambda>p. str_key fmt (fst p)) (columns f)) \<longrightarrow>
              d = map (\<lambda>(c, col). (KStr (str_key fmt c),
                         PDict (map (\<lambda>(i, x). (KStr (str_key fmt i), x)) (zip (index f) col))))
                      (columns f))"
      using some [of f] by (simp only:)
  qed
qed

theorem df_to_dict_str_keys_spec_witness:
  "df_to_dict_str_keys str_int None = Inr PNone
   \<and> df_to_dict_str_keys str_int (Some sheet) \<noteq> Inr PNone
   \<and> df_to_dict_str_keys str_int (Some sheet) =
       Inr (PDict [(KStr ''2023'', PDict [(KStr ''Total Assets'', PNum 10), (KStr ''7'', PNaN)]),
                   (KStr ''2024'', PDict [(KStr ''Total Assets'', PNum 12), (KStr ''7'', PInt 1)])])
   \<and> df_to_dict_str_keys str_int (Some sheet_clash) \<noteq> Inr PNone
   \<and> df_to_dict_str_keys str_int (Some sheet_clash) =
       Inr (PDict [(KStr ''2023'', PDict [(KStr ''7'', PNum 11)])])"
proof -
  have i: "distinct (map (str_key str_int) (index sheet))"
    by code_simp
  have c: "distinct (map (\<lambda>p. str_key str_int (fst p)) (columns sheet))"
    by code_simp
  have e: "map (\<lambda>(c, col). (KStr (str_key str_int c),
                PDict (map (\<lambda>(i, x). (KStr (str_key str_int i), x)) (zip (index sheet) col))))
             (columns sheet) =
           [(KStr ''2023'', PDict [(KStr ''Total Assets'', PNum 10), (KStr ''7'', PNaN)]),
            (KStr ''2024'', PDict [(KStr ''Total Assets'', PNum 12), (KStr ''7'', PInt 1)])]"
    by code_simp
  from df_to_dict_str_keys_spec [of str_int None, THEN conjunct1]
  have n: "df_to_dict_str_keys str_int None = Inr PNone"
    by simp
  from df_to_dict_str_keys_spec [of str_int "Some sheet", THEN conjunct1]
  have s1: "df_to_dict_str_keys str_int (Some sheet) \<noteq> Inr PNone"
    by simp
  from df_to_dict_str_keys_spec [of str_int "Some sheet", THEN conjunct2, rule_format, OF refl]
  obtain d where d: "df_to_dict_str_keys str_int (Some sheet) = Inr (PDict d)"
    and x: "distinct (map (str_key str_int) (index sheet)) \<longrightarrow>
            distinct (map (\<lambda>p. str_key str_int (fst p)) (columns sheet)) \<longrightarrow>
              d = map (\<lambda>(c, col). (KStr (str_key str_int c),
                         PDict (map (\<lambda>(i, x). (KStr (str_key str_int i), x)) (zip (index sheet) col))))
                      (columns sheet)"
    by (elim exE conjE)
  from x i c have "d = map (\<lambda>(c, col). (KStr (str_key str_int c),
                         PDict (map (\<lambda>(i, x). (KStr (str_key str_int i), x)) (zip (index sheet) col))))
                      (columns sheet)"
    by (simp only:)
  then have s2: "df_to_dict_str_keys str_int (Some sheet) =
       Inr (PDict [(KStr ''2023'', PDict [(KStr ''Total Assets'', PNum 10), (KStr ''7'', PNaN)]),
                   (KStr ''2024'', PDict [(KStr ''Total Assets'', PNum 12), (KStr ''7'', PInt 1)])])"
    unfolding d e by (simp only:)
  from df_to_dict_str_keys_spec [of str_int "Some sheet_clash", THEN conjunct1]
  have k1: "df_to_dict_str_keys str_int (Some sheet_clash) \<noteq> Inr PNone"
    by simp
  have k2: "df_to_dict_str_keys str_int (Some sheet_clash) =
       Inr (PDict [(KStr ''2023'', PDict [(KStr ''7'', PNum 11)])])"
    by code_simp
  from n s1 s2 k1 k2 show ?thesis
    by (intro conjI)
qed

end
